theory Spec2Isabelle
  imports Main
begin

section \<open>Values, errors and Python dictionaries\<close>

text \<open>
  The file \<^verbatim>\<open>python/mxnet/symbol/op.py\<close> builds, for every operator of the
  native registry, the source text of a Python function and \<^verbatim>\<open>exec\<close>s it.
  The embedding below follows that text statement by statement.

  A Python value as far as the generated functions look at it: an instance of
  \<^verbatim>\<open>SymbolBase\<close> (told apart by an identity), a string, an integer, a
  string-to-string mapping (the shape of \<^verbatim>\<open>attr\<close>), \<^verbatim>\<open>None\<close>, and
  the sentinel \<^verbatim>\<open>_Null\<close>.
\<close>

datatype pyval =
    SymV nat
  | StrV string
  | IntV int
  | DictV "(string \<times> string) list"
  | NoneV
  | NullV

text \<open>\<^verbatim>\<open>isinstance(v, SymbolBase)\<close>\<close>

fun is_symbol :: "pyval \<Rightarrow> bool" where
  "is_symbol (SymV _) = True"
| "is_symbol _ = False"

text \<open>
  An exception is a value. \<^verbatim>\<open>AssertionError fmt args\<close> is the failed
  \<^verbatim>\<open>assert\<close> whose message is \<^verbatim>\<open>fmt % args\<close>; the values
  substituted for \<^verbatim>\<open>%s\<close> are kept as they are, so that the message can be asked
  which value it names. \<^verbatim>\<open>TypeError\<close> is raised by Python's call protocol, by
  \<^verbatim>\<open>_numpy.dtype\<close> and by the attribute scope.
\<close>

datatype error =
    AssertionError string "pyval list"
  | TypeError string

text \<open>
  A \<^verbatim>\<open>dict\<close> is an association list with distinct keys in insertion order
  (the iteration order of \<^verbatim>\<open>items()\<close> since Python 3.7).
  \<^verbatim>\<open>d[k] = v\<close> keeps the place of a key that is already there and appends a new
  one; \<^verbatim>\<open>d.update(e)\<close> stores the items of \<^verbatim>\<open>e\<close> in their order;
  \<^verbatim>\<open>d.pop(k, default)\<close> returns the value and removes the key.
\<close>

type_synonym 'v pydict = "(string \<times> 'v) list"

fun dict_set :: "'v pydict \<Rightarrow> string \<Rightarrow> 'v \<Rightarrow> 'v pydict" where
  "dict_set [] k v = [(k, v)]"
| "dict_set ((k', v') # d) k v =
     (if k' = k then (k, v) # d else (k', v') # dict_set d k v)"

fun dict_update :: "'v pydict \<Rightarrow> 'v pydict \<Rightarrow> 'v pydict" where
  "dict_update d [] = d"
| "dict_update d ((k, v) # e) = dict_update (dict_set d k v) e"

definition dict_contains :: "'v pydict \<Rightarrow> string \<Rightarrow> bool" where
  "dict_contains d k = (map_of d k \<noteq> None)"

definition dict_pop :: "'v pydict \<Rightarrow> string \<Rightarrow> 'v \<Rightarrow> 'v \<times> 'v pydict" where
  "dict_pop d k dflt =
     ((case map_of d k of None \<Rightarrow> dflt | Some v \<Rightarrow> v), filter (\<lambda>kv. fst kv \<noteq> k) d)"

text \<open>\<^verbatim>\<open>str.startswith\<close>, \<^verbatim>\<open>str.endswith\<close> and \<^verbatim>\<open>str.lower\<close> (on ASCII).\<close>

definition startswith :: "string \<Rightarrow> string \<Rightarrow> bool" where
  "startswith s p = (take (length p) s = p)"

definition endswith :: "string \<Rightarrow> string \<Rightarrow> bool" where
  "endswith s p = (length p \<le> length s \<and> drop (length s - length p) s = p)"

definition lower_char :: "char \<Rightarrow> char" where
  "lower_char c =
     (case map_of (zip ''ABCDEFGHIJKLMNOPQRSTUVWXYZ'' ''abcdefghijklmnopqrstuvwxyz'') c of
        Some l \<Rightarrow> l
      | None \<Rightarrow> c)"

definition lower :: "string \<Rightarrow> string" where
  "lower s = map lower_char s"

section \<open>Classification of the declared arguments\<close>

text \<open>
  The entries of \<^verbatim>\<open>ndsignature\<close> and \<^verbatim>\<open>signature\<close> are the four
  texts the loop and the lines after it produce:
  \<^verbatim>\<open>'%s=_Null'\<close>, \<^verbatim>\<open>'%s=None'\<close>, \<^verbatim>\<open>'*%s'\<close> and
  \<^verbatim>\<open>'**kwargs'\<close>.
\<close>

datatype param =
    NullDefault string
  | NoneDefault string
  | Star string
  | KwTail

record op_signature =
  dtype_name :: "string option"
  arr_name :: "string option"
  ndsignature :: "param list"
  signature :: "param list"
  ndarg_names :: "string list"
  kwarg_names :: "string list"

text \<open>The truth value of \<^verbatim>\<open>arr_name\<close>: \<^verbatim>\<open>None\<close> and \<^verbatim>\<open>''\<close> are false.\<close>

fun truthy :: "string option \<Rightarrow> bool" where
  "truthy None = False"
| "truthy (Some s) = (s \<noteq> [])"

definition init_signature :: op_signature where
  "init_signature =
     \<lparr>dtype_name = None, arr_name = None, ndsignature = [], signature = [],
      ndarg_names = [], kwarg_names = []\<rparr>"

definition one_variadic_msg :: string where
  "one_variadic_msg =
     ''Op can only have one argument with variable size and it must be the last argument.''"

text \<open>One round of the loop \<^verbatim>\<open>for i in range(narg)\<close>, on \<^verbatim>\<open>(name, atype)\<close>.\<close>

definition classify_arg :: "op_signature \<Rightarrow> string \<times> string \<Rightarrow> error + op_signature" where
  "classify_arg s a =
     (let name = fst a; atype = snd a in
      if name = ''dtype'' then
        Inr (s\<lparr>dtype_name := Some name, signature := signature s @ [NullDefault name]\<rparr>)
      else if startswith atype ''NDArray'' \<or> startswith atype ''Symbol'' then
        (if truthy (arr_name s) then Inl (AssertionError one_variadic_msg [])
         else if endswith atype ''[]'' then
           Inr (s\<lparr>ndsignature := ndsignature s @ [Star name], arr_name := Some name\<rparr>)
         else
           Inr (s\<lparr>ndsignature := ndsignature s @ [NoneDefault name],
                  ndarg_names := ndarg_names s @ [name]\<rparr>))
      else
        Inr (s\<lparr>signature := signature s @ [NullDefault name],
               kwarg_names := kwarg_names s @ [name]\<rparr>))"

fun classify_args :: "op_signature \<Rightarrow> (string \<times> string) list \<Rightarrow> error + op_signature" where
  "classify_args s [] = Inr s"
| "classify_args s (a # as) =
     (case classify_arg s a of Inl e \<Rightarrow> Inl e | Inr s' \<Rightarrow> classify_args s' as)"

text \<open>
  The loop and the lines that close the signature:
  \<^verbatim>\<open>name=None\<close>, \<^verbatim>\<open>attr=None\<close>, \<^verbatim>\<open>out=None\<close>, \<^verbatim>\<open>**kwargs\<close>, then
  \<^verbatim>\<open>signature = ndsignature + signature\<close>.
\<close>

definition classify :: "(string \<times> string) list \<Rightarrow> error + op_signature" where
  "classify args =
     (case classify_args init_signature args of
        Inl e \<Rightarrow> Inl e
      | Inr s \<Rightarrow>
          Inr (s\<lparr>signature :=
                   ndsignature s @ signature s @
                   [NoneDefault ''name'', NoneDefault ''attr'', NoneDefault ''out'', KwTail]\<rparr>))"

section \<open>The collaborators of a generated function\<close>

text \<open>
  A call of \<^verbatim>\<open>_symbol_creator(handle, sym_args, sym_kwargs, keys, vals, name)\<close>.
  \<^verbatim>\<open>keys\<close> and \<^verbatim>\<open>vals\<close> are two lists, as in the source.
\<close>

record ffi_request =
  req_handle :: nat
  req_sym_args :: "pyval list option"
  req_sym_kwargs :: "pyval pydict"
  req_keys :: "string list"
  req_vals :: "pyval list"
  req_name :: pyval

text \<open>
  What a call can read and change outside its own frame: the attributes of
  \<^verbatim>\<open>AttrScope.current\<close>, the counters of \<^verbatim>\<open>NameManager.current\<close>,
  and the requests the native library has received so far.
\<close>

record world =
  attr_scope :: "string pydict"
  name_counter :: "nat pydict"
  created :: "ffi_request list"

text \<open>
  Modelled from the spec: \<^verbatim>\<open>AttrScope.current.get\<close> is defined in
  \<^verbatim>\<open>mxnet/attribute.py\<close>, which is not among the sources. The spec gives
  \<^verbatim>\<open>AttributeScope.current_merged(explicit_attr_override)\<close>: it ``returns ambient
  attributes merged with any explicit override (explicit wins on key conflict)''. The
  override is absent (\<^verbatim>\<open>None\<close>) or a mapping; the spec says nothing of any other
  value, which is taken to raise.
\<close>

definition attr_scope_get :: "string pydict \<Rightarrow> pyval \<Rightarrow> error + string pydict" where
  "attr_scope_get ambient attr =
     (case attr of
        NoneV \<Rightarrow> Inr ambient
      | DictV d \<Rightarrow> Inr (dict_update ambient d)
      | SymV _ \<Rightarrow> Inl (TypeError ''attr must be a dict'')
      | StrV _ \<Rightarrow> Inl (TypeError ''attr must be a dict'')
      | IntV _ \<Rightarrow> Inl (TypeError ''attr must be a dict'')
      | NullV \<Rightarrow> Inl (TypeError ''attr must be a dict''))"

definition digit_char :: "nat \<Rightarrow> char" where
  "digit_char d = ''0123456789'' ! d"

fun str_nat :: "nat \<Rightarrow> string" where
  "str_nat n = (if n < 10 then [digit_char n] else str_nat (n div 10) @ [digit_char (n mod 10)])"

declare str_nat.simps [simp del]

text \<open>
  Modelled from the spec: \<^verbatim>\<open>NameManager.current.get\<close> is defined in
  \<^verbatim>\<open>mxnet/name.py\<close>, which is not among the sources. The spec gives
  \<^verbatim>\<open>NameManager.resolve(requested_name_or_absent, base_name)\<close>: it ``returns
  requested_name_or_absent if present, else a fresh disambiguated name derived from
  base_name'', the manager being an ``ambient per-base-name counter producing unique,
  deterministic node names''. The fresh name is the base name followed by the counter in
  decimal, and the counter of that base name goes up by one.
\<close>

definition name_manager_get :: "nat pydict \<Rightarrow> pyval \<Rightarrow> string \<Rightarrow> pyval \<times> nat pydict" where
  "name_manager_get counter name hint =
     (if name = NoneV then
        (let n = (case map_of counter hint of None \<Rightarrow> 0 | Some c \<Rightarrow> c)
         in (StrV (hint @ str_nat n), dict_set counter hint (Suc n)))
      else (name, counter))"

text \<open>
  Modelled from the spec: \<^verbatim>\<open>_symbol_creator\<close> is imported from the
  \<^verbatim>\<open>_ctypes\<close> or Cython bindings, which are not among the sources. The spec
  gives \<^verbatim>\<open>create_symbol(handle, positional_nodes, keyword_nodes, keys, vals, name)
  -> node_handle\<close>, an opaque call into the native library. The model records the
  request and returns a new node; errors of the engine are outside it.
\<close>

definition symbol_creator :: "ffi_request \<Rightarrow> world \<Rightarrow> (error + pyval) \<times> world" where
  "symbol_creator r w = (Inr (SymV (length (created w))), w\<lparr>created := created w @ [r]\<rparr>)"

section \<open>The loop over the keyword mapping\<close>

text \<open>
  \<^verbatim>\<open>
  for k, v in kwargs.items():
      if isinstance(v, SymbolBase):
          sym_kwargs[k] = v
      else:
          keys.append(k)
          vals.append(v)
  \<close>
  The state of the loop is \<^verbatim>\<open>(sym_kwargs, keys, vals)\<close>.
\<close>

fun route_kwargs ::
  "pyval pydict \<Rightarrow> pyval pydict \<times> string list \<times> pyval list \<Rightarrow>
   pyval pydict \<times> string list \<times> pyval list" where
  "route_kwargs [] acc = acc"
| "route_kwargs ((k, v) # kwargs) (sym_kwargs, keys, vals) =
     (if is_symbol v then route_kwargs kwargs (dict_set sym_kwargs k v, keys, vals)
      else route_kwargs kwargs (sym_kwargs, keys @ [k], vals @ [v]))"

section \<open>The function generated for an operator with a node-array argument\<close>

definition positional_msg :: string where
  "positional_msg = ''Positional arguments must be Symbol instances, but got %s''"

text \<open>
  \<^verbatim>\<open>
  sym_args = []
  for i in data:
      assert isinstance(i, SymbolBase), "... but got %s"%str(i)
      sym_args.append(i)
  \<close>
\<close>

fun sym_args_loop :: "pyval list \<Rightarrow> pyval list \<Rightarrow> error + pyval list" where
  "sym_args_loop sym_args [] = Inr sym_args"
| "sym_args_loop sym_args (i # rest) =
     (if is_symbol i then sym_args_loop (sym_args @ [i]) rest
      else Inl (AssertionError positional_msg [i]))"

text \<open>
  \<^verbatim>\<open>if 'dtype' in kwargs: kwargs['dtype'] = _numpy.dtype(kwargs['dtype']).name\<close>,
  generated only when the operator declares \<^verbatim>\<open>dtype\<close>. \<^verbatim>\<open>_numpy.dtype\<close> is a
  parameter of the model: \<^verbatim>\<open>np_dtype v\<close> is the canonical name, or \<^verbatim>\<open>None\<close>
  where numpy raises.
\<close>

definition coerce_dtype ::
  "(pyval \<Rightarrow> string option) \<Rightarrow> string option \<Rightarrow> pyval pydict \<Rightarrow> error + pyval pydict" where
  "coerce_dtype np_dtype dn kwargs =
     (case dn of
        None \<Rightarrow> Inr kwargs
      | Some d \<Rightarrow>
          (case map_of kwargs d of
             None \<Rightarrow> Inr kwargs
           | Some x \<Rightarrow>
               (case np_dtype x of
                  None \<Rightarrow> Inl (TypeError ''data type not understood'')
                | Some s \<Rightarrow> Inr (dict_set kwargs d (StrV s)))))"

definition str_attrs :: "string pydict \<Rightarrow> pyval pydict" where
  "str_attrs m = map (\<lambda>kv. (fst kv, StrV (snd kv))) m"

text \<open>
  \<^verbatim>\<open>
  if 'num_args' not in kwargs:
      keys.append('num_args')
      vals.append(len(sym_args) + len(sym_kwargs))
  \<close>
  generated only when \<^verbatim>\<open>key_var_num_args\<close> is a non-empty string.
\<close>

definition inject_num_args ::
  "string \<Rightarrow> pyval pydict \<Rightarrow> pyval list \<Rightarrow> pyval pydict \<Rightarrow> string list \<times> pyval list \<Rightarrow>
   string list \<times> pyval list" where
  "inject_num_args key_var_num_args kwargs sym_args sym_kwargs kv =
     (if key_var_num_args \<noteq> [] \<and> \<not> dict_contains kwargs key_var_num_args then
        (fst kv @ [key_var_num_args],
         snd kv @ [IntV (int (length sym_args + length sym_kwargs))])
      else kv)"

text \<open>
  The body of the function with the parameters \<^verbatim>\<open>*data\<close> and
  \<^verbatim>\<open>**kwargs\<close>, in the order of the source. An
  exception leaves the world as it was: every \<^verbatim>\<open>raise\<close> comes before the name
  manager and the creator are reached.
\<close>

definition variadic_function ::
  "(pyval \<Rightarrow> string option) \<Rightarrow> nat \<Rightarrow> string \<Rightarrow> string option \<Rightarrow> string \<Rightarrow>
   pyval list \<Rightarrow> pyval pydict \<Rightarrow> world \<Rightarrow> (error + pyval) \<times> world" where
  "variadic_function np_dtype handle func_name dn key_var_num_args args kwargs w =
     (case sym_args_loop [] args of
        Inl e \<Rightarrow> (Inl e, w)
      | Inr sym_args \<Rightarrow>
     (case coerce_dtype np_dtype dn kwargs of
        Inl e \<Rightarrow> (Inl e, w)
      | Inr kwargs1 \<Rightarrow>
     (let (attr, kwargs2) = dict_pop kwargs1 ''attr'' NoneV in
      case attr_scope_get (attr_scope w) attr of
        Inl e \<Rightarrow> (Inl e, w)
      | Inr merged \<Rightarrow>
     (let kwargs3 = dict_update kwargs2 (str_attrs merged);
          (name, kwargs4) = dict_pop kwargs3 ''name'' NoneV;
          (name', counter') = name_manager_get (name_counter w) name (lower func_name);
          (out, kwargs5) = dict_pop kwargs4 ''out'' NoneV;
          (sym_kwargs, keys, vals) = route_kwargs kwargs5 ([], [], []);
          (keys', vals') =
             inject_num_args key_var_num_args kwargs5 sym_args sym_kwargs (keys, vals)
      in symbol_creator
           \<lparr>req_handle = handle, req_sym_args = Some sym_args, req_sym_kwargs = sym_kwargs,
            req_keys = keys', req_vals = vals', req_name = name'\<rparr>
           (w\<lparr>name_counter := counter'\<rparr>)))))"

section \<open>The function generated for every other operator\<close>

text \<open>
  The function is \<^verbatim>\<open>def f(<signature>)\<close>, every parameter with a default and
  \<^verbatim>\<open>**kwargs\<close> last. Python binds a call to it as follows: positional values fill
  the parameters in order, up to the first \<^verbatim>\<open>*\<close> or \<^verbatim>\<open>**\<close> entry; a keyword
  that names a parameter is bound to it; every other keyword is collected in
  \<^verbatim>\<open>kwargs\<close>; too many positional values, or a keyword for a parameter that a
  positional value has filled, raise \<^verbatim>\<open>TypeError\<close>. The local variables of the
  frame are a dictionary.

  The embedding is of the functions that \<^verbatim>\<open>exec\<close> accepts and whose declared
  names are not the body's own variables \<^verbatim>\<open>kwargs\<close>, \<^verbatim>\<open>sym_kwargs\<close>,
  \<^verbatim>\<open>keys\<close> and \<^verbatim>\<open>vals\<close>; the targets \<^verbatim>\<open>k\<close> and \<^verbatim>\<open>v\<close> of the
  loop are modelled. Assertions are enabled.
\<close>

fun positional_slots :: "param list \<Rightarrow> string list" where
  "positional_slots (NullDefault n # ps) = n # positional_slots ps"
| "positional_slots (NoneDefault n # ps) = n # positional_slots ps"
| "positional_slots _ = []"

fun defaults :: "param list \<Rightarrow> pyval pydict" where
  "defaults [] = []"
| "defaults (NullDefault n # ps) = (n, NullV) # defaults ps"
| "defaults (NoneDefault n # ps) = (n, NoneV) # defaults ps"
| "defaults (_ # ps) = defaults ps"

definition bind_args ::
  "param list \<Rightarrow> pyval list \<Rightarrow> pyval pydict \<Rightarrow> error + pyval pydict \<times> pyval pydict" where
  "bind_args ps args kw =
     (let slots = positional_slots ps; named = map fst (defaults ps) in
      if length slots < length args then
        Inl (TypeError ''too many positional arguments'')
      else if list_ex (\<lambda>kv. fst kv \<in> set (take (length args) slots)) kw then
        Inl (TypeError ''got multiple values for argument'')
      else
        Inr (dict_update (dict_update (defaults ps) (zip slots args))
               (filter (\<lambda>kv. fst kv \<in> set named) kw),
             filter (\<lambda>kv. fst kv \<notin> set named) kw))"

text \<open>
  Reading a local variable. Every name the body reads is a parameter of the signature
  that \<^verbatim>\<open>classify\<close> builds, so the frame always has it.
\<close>

definition local_var :: "pyval pydict \<Rightarrow> string \<Rightarrow> pyval" where
  "local_var frame n = (case map_of frame n of Some x \<Rightarrow> x | None \<Rightarrow> NoneV)"

text \<open>
  The targets \<^verbatim>\<open>k\<close> and \<^verbatim>\<open>v\<close> of \<^verbatim>\<open>for k, v in kwargs.items()\<close> are
  local variables of the same frame as the parameters: after a loop over a non-empty
  mapping they hold its last item, whatever a parameter of that name held before.
\<close>

definition loop_targets :: "pyval pydict \<Rightarrow> pyval pydict \<Rightarrow> pyval pydict" where
  "loop_targets kwargs frame =
     (if kwargs = [] then frame
      else dict_set (dict_set frame ''k'' (StrV (fst (last kwargs)))) ''v'' (snd (last kwargs)))"

definition argument_msg :: "string \<Rightarrow> string" where
  "argument_msg n = ''Argument '' @ n @ '' must be Symbol instances, but got %s''"

text \<open>
  For each name of \<^verbatim>\<open>ndarg_names\<close>:
  \<^verbatim>\<open>
  if data is not None:
      assert isinstance(data, SymbolBase), "Argument data must be ... got %s"%str(data)
      sym_kwargs['data'] = data
  \<close>
\<close>

fun nd_args :: "string list \<Rightarrow> pyval pydict \<Rightarrow> pyval pydict \<Rightarrow> error + pyval pydict" where
  "nd_args [] frame sym_kwargs = Inr sym_kwargs"
| "nd_args (n # ns) frame sym_kwargs =
     (let x = local_var frame n in
      if x = NoneV then nd_args ns frame sym_kwargs
      else if is_symbol x then nd_args ns frame (dict_set sym_kwargs n x)
      else Inl (AssertionError (argument_msg n) [x]))"

text \<open>
  For each name of \<^verbatim>\<open>kwarg_names\<close>:
  \<^verbatim>\<open>
  if axis is not _Null:
      keys.append('axis')
      vals.append(axis)
  \<close>
\<close>

fun kw_args ::
  "string list \<Rightarrow> pyval pydict \<Rightarrow> string list \<times> pyval list \<Rightarrow> string list \<times> pyval list" where
  "kw_args [] frame kv = kv"
| "kw_args (n # ns) frame (keys, vals) =
     (let x = local_var frame n in
      if x = NullV then kw_args ns frame (keys, vals)
      else kw_args ns frame (keys @ [n], vals @ [x]))"

text \<open>
  \<^verbatim>\<open>
  if dtype is not _Null:
      keys.append('dtype')
      vals.append(_numpy.dtype(dtype).name)
  \<close>
  generated only when the operator declares \<^verbatim>\<open>dtype\<close>.
\<close>

definition dtype_arg ::
  "(pyval \<Rightarrow> string option) \<Rightarrow> string option \<Rightarrow> pyval pydict \<Rightarrow> string list \<times> pyval list \<Rightarrow>
   error + string list \<times> pyval list" where
  "dtype_arg np_dtype dn frame kv =
     (case dn of
        None \<Rightarrow> Inr kv
      | Some d \<Rightarrow>
          (let x = local_var frame d in
           if x = NullV then Inr kv
           else (case np_dtype x of
                   None \<Rightarrow> Inl (TypeError ''data type not understood'')
                 | Some s \<Rightarrow> Inr (fst kv @ [d], snd kv @ [StrV s]))))"

definition keyword_function ::
  "(pyval \<Rightarrow> string option) \<Rightarrow> nat \<Rightarrow> string \<Rightarrow> op_signature \<Rightarrow>
   pyval list \<Rightarrow> pyval pydict \<Rightarrow> world \<Rightarrow> (error + pyval) \<times> world" where
  "keyword_function np_dtype handle func_name sg args kw w =
     (case bind_args (signature sg) args kw of
        Inl e \<Rightarrow> (Inl e, w)
      | Inr (frame0, kwargs0) \<Rightarrow>
     (case attr_scope_get (attr_scope w) (local_var frame0 ''attr'') of
        Inl e \<Rightarrow> (Inl e, w)
      | Inr merged \<Rightarrow>
     (let kwargs = dict_update kwargs0 (str_attrs merged);
          (sym_kwargs0, keys0, vals0) = route_kwargs kwargs ([], [], []);
          frame = loop_targets kwargs frame0
      in
      case nd_args (ndarg_names sg) frame sym_kwargs0 of
        Inl e \<Rightarrow> (Inl e, w)
      | Inr sym_kwargs \<Rightarrow>
     (case dtype_arg np_dtype (dtype_name sg) frame
             (kw_args (kwarg_names sg) frame (keys0, vals0)) of
        Inl e \<Rightarrow> (Inl e, w)
      | Inr (keys, vals) \<Rightarrow>
     (let (name', counter') =
            name_manager_get (name_counter w) (local_var frame ''name'') (lower func_name)
      in symbol_creator
           \<lparr>req_handle = handle, req_sym_args = None, req_sym_kwargs = sym_kwargs,
            req_keys = keys, req_vals = vals, req_name = name'\<rparr>
           (w\<lparr>name_counter := counter'\<rparr>))))))"

section \<open>Which part of synthesis is embedded\<close>

text \<open>
  \<^verbatim>\<open>_make_atomic_symbol_function\<close> reads the metadata, runs the classification
  loop, chooses one of the two bodies by \<^verbatim>\<open>if arr_name:\<close>, and hands the text to
  \<^verbatim>\<open>exec\<close>. The embedding has the classification (\<^verbatim>\<open>classify\<close>) and the two
  bodies (\<^verbatim>\<open>variadic_function\<close>, \<^verbatim>\<open>keyword_function\<close>). The step through
  \<^verbatim>\<open>exec\<close> is not embedded: it raises \<^verbatim>\<open>SyntaxError\<close> for a declared name
  that is no identifier, is declared twice or is one of \<^verbatim>\<open>name\<close>, \<^verbatim>\<open>attr\<close>,
  \<^verbatim>\<open>out\<close>, \<^verbatim>\<open>kwargs\<close>, and the bodies below are those of the declared names
  that it accepts and that are not the variables \<^verbatim>\<open>sym_args\<close>,
  \<^verbatim>\<open>sym_kwargs\<close>, \<^verbatim>\<open>keys\<close>, \<^verbatim>\<open>vals\<close> of the bodies themselves.
\<close>

section \<open>Predicates of the statements\<close>

text \<open>
  What the classification has done with the name \<^verbatim>\<open>dtype\<close>: it is in none of the
  node lists and in no node entry of the signature; and, once an argument of that name
  has been read, \<^verbatim>\<open>dtype_name\<close> is set and the signature has the scalar entry.
\<close>

definition dtype_scalar_only :: "op_signature \<Rightarrow> bool" where
  "dtype_scalar_only s =
     (''dtype'' \<notin> set (ndarg_names s) \<and> ''dtype'' \<notin> set (kwarg_names s) \<and>
      arr_name s \<noteq> Some ''dtype'' \<and>
      Star ''dtype'' \<notin> set (ndsignature s) \<and> NoneDefault ''dtype'' \<notin> set (ndsignature s) \<and>
      Star ''dtype'' \<notin> set (signature s) \<and> NoneDefault ''dtype'' \<notin> set (signature s))"

definition dtype_seen :: "op_signature \<Rightarrow> bool" where
  "dtype_seen s = (dtype_name s = Some ''dtype'' \<and> NullDefault ''dtype'' \<in> set (signature s))"

text \<open>The class of an exception: is it a \<^verbatim>\<open>TypeError\<close>?\<close>

fun is_type_error :: "error \<Rightarrow> bool" where
  "is_type_error (TypeError _) = True"
| "is_type_error (AssertionError _ _) = False"

text \<open>Sample collaborators for the concrete runs below.\<close>

definition np_dtype_sample :: "pyval \<Rightarrow> string option" where
  "np_dtype_sample x = (case x of StrV s \<Rightarrow> Some s | _ \<Rightarrow> None)"

definition empty_world :: world where
  "empty_world = \<lparr>attr_scope = [], name_counter = [], created = []\<rparr>"

text \<open>
  The two branches of the loop that read the type tag: an argument reaches the node
  branch when it is not named \<^verbatim>\<open>dtype\<close> and its type tag starts with
  \<^verbatim>\<open>NDArray\<close> or \<^verbatim>\<open>Symbol\<close>; it is a node array when the tag also ends
  with \<^verbatim>\<open>[]\<close>.
\<close>

definition node_typed :: "string \<times> string \<Rightarrow> bool" where
  "node_typed a =
     (fst a \<noteq> ''dtype'' \<and> (startswith (snd a) ''NDArray'' \<or> startswith (snd a) ''Symbol''))"

definition node_array_typed :: "string \<times> string \<Rightarrow> bool" where
  "node_array_typed a = (node_typed a \<and> endswith (snd a) ''[]'')"

text \<open>
  The condition of the specification, in its words: more than one argument qualifies as
  node-array-typed, or a node-array-typed argument is not the last argument in
  declaration order.
\<close>

definition spec_signature_error :: "(string \<times> string) list \<Rightarrow> bool" where
  "spec_signature_error args =
     (1 < length (filter node_array_typed args) \<or> list_ex node_array_typed (butlast args))"

text \<open>A node-typed argument is declared after a node-array argument with a name.\<close>

fun node_after_array :: "(string \<times> string) list \<Rightarrow> bool" where
  "node_after_array [] = False"
| "node_after_array (a # as) =
     ((node_array_typed a \<and> fst a \<noteq> [] \<and> list_ex node_typed as) \<or> node_after_array as)"

text \<open>
  The items of a keyword mapping whose value is not, or is, a node reference, in the
  order of the mapping.
\<close>

definition scalar_items :: "pyval pydict \<Rightarrow> pyval pydict" where
  "scalar_items kwargs = filter (\<lambda>kv. \<not> is_symbol (snd kv)) kwargs"

definition node_items :: "pyval pydict \<Rightarrow> pyval pydict" where
  "node_items kwargs = filter (\<lambda>kv. is_symbol (snd kv)) kwargs"

text \<open>
  Views of the function generated for an operator with a node-array argument: the
  attributes that \<^verbatim>\<open>AttrScope.current.get(attr)\<close> returns; the value of the
  keyword \<^verbatim>\<open>name\<close> together with the keyword mapping that the loop iterates
  (after the coercion of \<^verbatim>\<open>dtype\<close>, the removal of \<^verbatim>\<open>attr\<close>, the update
  with the attributes and the removal of \<^verbatim>\<open>name\<close> and \<^verbatim>\<open>out\<close>); and the
  request built from that mapping.
\<close>

definition variadic_merged ::
  "(pyval \<Rightarrow> string option) \<Rightarrow> string option \<Rightarrow> pyval pydict \<Rightarrow> world \<Rightarrow> error + string pydict" where
  "variadic_merged np_dtype dn kwargs w =
     (case coerce_dtype np_dtype dn kwargs of
        Inl e \<Rightarrow> Inl e
      | Inr kwargs1 \<Rightarrow> attr_scope_get (attr_scope w) (fst (dict_pop kwargs1 ''attr'' NoneV)))"

definition variadic_kwargs ::
  "(pyval \<Rightarrow> string option) \<Rightarrow> string option \<Rightarrow> pyval pydict \<Rightarrow> world \<Rightarrow>
   error + pyval \<times> pyval pydict" where
  "variadic_kwargs np_dtype dn kwargs w =
     (case coerce_dtype np_dtype dn kwargs of
        Inl e \<Rightarrow> Inl e
      | Inr kwargs1 \<Rightarrow>
          (case attr_scope_get (attr_scope w) (fst (dict_pop kwargs1 ''attr'' NoneV)) of
             Inl e \<Rightarrow> Inl e
           | Inr merged \<Rightarrow>
               (let kwargs3 = dict_update (snd (dict_pop kwargs1 ''attr'' NoneV)) (str_attrs merged);
                    kwargs4 = snd (dict_pop kwargs3 ''name'' NoneV)
                in Inr (fst (dict_pop kwargs3 ''name'' NoneV),
                        snd (dict_pop kwargs4 ''out'' NoneV)))))"

definition injected :: "string \<Rightarrow> pyval pydict \<Rightarrow> pyval list \<Rightarrow> pyval pydict" where
  "injected key_var_num_args kwargs sym_args =
     (if key_var_num_args \<noteq> [] \<and> \<not> dict_contains kwargs key_var_num_args then
        [(key_var_num_args,
          IntV (int (length sym_args + length (dict_update [] (node_items kwargs)))))]
      else [])"

definition variadic_request ::
  "nat \<Rightarrow> string \<Rightarrow> pyval list \<Rightarrow> pyval pydict \<Rightarrow> pyval \<Rightarrow> ffi_request" where
  "variadic_request handle key_var_num_args sym_args kwargs nm =
     \<lparr>req_handle = handle, req_sym_args = Some sym_args,
      req_sym_kwargs = dict_update [] (node_items kwargs),
      req_keys = map fst (scalar_items kwargs @ injected key_var_num_args kwargs sym_args),
      req_vals = map snd (scalar_items kwargs @ injected key_var_num_args kwargs sym_args),
      req_name = nm\<rparr>"

text \<open>
  Views of the function generated for the other operators: the frame after the loop
  together with the keyword mapping that the loop iterates (the open tail updated with
  the attributes); the entries of the declared scalar parameters that are not
  \<^verbatim>\<open>_Null\<close>; the entry of \<^verbatim>\<open>dtype\<close>; and the request built from them.
\<close>

definition keyword_frame ::
  "op_signature \<Rightarrow> pyval list \<Rightarrow> pyval pydict \<Rightarrow> world \<Rightarrow>
   error + pyval pydict \<times> pyval pydict" where
  "keyword_frame sg args kw w =
     (case bind_args (signature sg) args kw of
        Inl e \<Rightarrow> Inl e
      | Inr (frame0, kwargs0) \<Rightarrow>
          (case attr_scope_get (attr_scope w) (local_var frame0 ''attr'') of
             Inl e \<Rightarrow> Inl e
           | Inr merged \<Rightarrow>
               Inr (loop_targets (dict_update kwargs0 (str_attrs merged)) frame0,
                    dict_update kwargs0 (str_attrs merged))))"

definition declared_items :: "pyval pydict \<Rightarrow> string list \<Rightarrow> pyval pydict" where
  "declared_items frame ns =
     filter (\<lambda>e. snd e \<noteq> NullV) (map (\<lambda>n. (n, local_var frame n)) ns)"

definition dtype_items ::
  "(pyval \<Rightarrow> string option) \<Rightarrow> string option \<Rightarrow> pyval pydict \<Rightarrow> pyval pydict" where
  "dtype_items np_dtype dn frame =
     (case dn of
        None \<Rightarrow> []
      | Some d \<Rightarrow>
          (if local_var frame d = NullV then []
           else (case np_dtype (local_var frame d) of
                   None \<Rightarrow> []
                 | Some s \<Rightarrow> [(d, StrV s)])))"

definition keyword_request ::
  "(pyval \<Rightarrow> string option) \<Rightarrow> nat \<Rightarrow> op_signature \<Rightarrow> pyval pydict \<Rightarrow> pyval pydict \<Rightarrow>
   pyval pydict \<Rightarrow> pyval \<Rightarrow> ffi_request" where
  "keyword_request np_dtype handle sg frame kwargs sym_kwargs nm =
     \<lparr>req_handle = handle, req_sym_args = None, req_sym_kwargs = sym_kwargs,
      req_keys = map fst (scalar_items kwargs @ declared_items frame (kwarg_names sg) @
                          dtype_items np_dtype (dtype_name sg) frame),
      req_vals = map snd (scalar_items kwargs @ declared_items frame (kwarg_names sg) @
                          dtype_items np_dtype (dtype_name sg) frame),
      req_name = nm\<rparr>"

text \<open>Sample operators and scopes for the concrete runs below.\<close>

definition sample_decl :: "(string \<times> string) list" where
  "sample_decl =
     [(''data'', ''NDArray-or-Symbol''), (''axis'', ''int''), (''dtype'', ''string'')]"

definition sample_signature :: op_signature where
  "sample_signature =
     \<lparr>dtype_name = Some ''dtype'', arr_name = None,
      ndsignature = [NoneDefault ''data''],
      signature = [NoneDefault ''data'', NullDefault ''axis'', NullDefault ''dtype'',
                   NoneDefault ''name'', NoneDefault ''attr'', NoneDefault ''out'', KwTail],
      ndarg_names = [''data''], kwarg_names = [''axis'']\<rparr>"

text \<open>An operator with a scalar parameter named \<^verbatim>\<open>k\<close>, as \<^verbatim>\<open>topk\<close> has.\<close>

definition topk_decl :: "(string \<times> string) list" where
  "topk_decl = [(''data'', ''NDArray-or-Symbol''), (''axis'', ''int''), (''k'', ''int'')]"

definition topk_signature :: op_signature where
  "topk_signature =
     \<lparr>dtype_name = None, arr_name = None,
      ndsignature = [NoneDefault ''data''],
      signature = [NoneDefault ''data'', NullDefault ''axis'', NullDefault ''k'',
                   NoneDefault ''name'', NoneDefault ''attr'', NoneDefault ''out'', KwTail],
      ndarg_names = [''data''], kwarg_names = [''axis'', ''k'']\<rparr>"

definition scoped_world :: world where
  "scoped_world = \<lparr>attr_scope = [(''ctx_group'', ''dev1'')], name_counter = [], created = []\<rparr>"

text \<open>
  The attributes that \<^verbatim>\<open>AttrScope.current.get(attr)\<close> returns in the keyword
  form, and the names of the parameters of a signature.
\<close>

definition keyword_merged ::
  "op_signature \<Rightarrow> pyval list \<Rightarrow> pyval pydict \<Rightarrow> world \<Rightarrow> error + string pydict" where
  "keyword_merged sg args kw w =
     (case bind_args (signature sg) args kw of
        Inl e \<Rightarrow> Inl e
      | Inr (frame0, kwargs0) \<Rightarrow> attr_scope_get (attr_scope w) (local_var frame0 ''attr''))"

definition param_names :: "op_signature \<Rightarrow> string set" where
  "param_names sg = fst ` set (defaults (signature sg))"

text \<open>Reading a decimal numeral back: the inverse of \<^verbatim>\<open>str_nat\<close>.\<close>

definition digit_val :: "char \<Rightarrow> nat" where
  "digit_val c = length (takeWhile (\<lambda>d. d \<noteq> c) ''0123456789'')"

definition nat_of_str :: "string \<Rightarrow> nat" where
  "nat_of_str s = foldl (\<lambda>a c. 10 * a + digit_val c) 0 s"

text \<open>
  Every name that the classification puts in one of its lists has a parameter with a
  default in the matching signature.
\<close>

definition names_declared :: "op_signature \<Rightarrow> bool" where
  "names_declared s =
     (set (ndarg_names s) \<subseteq> fst ` set (defaults (ndsignature s)) \<and>
      set (kwarg_names s) \<subseteq> fst ` set (defaults (signature s)) \<and>
      (case dtype_name s of None \<Rightarrow> True | Some d \<Rightarrow> d \<in> fst ` set (defaults (signature s))))"

section \<open>Positional values of the node-array form\<close>

lemma sym_args_loop_find:
  "sym_args_loop acc args =
     (case find (\<lambda>i. \<not> is_symbol i) args of
        Some x \<Rightarrow> Inl (AssertionError positional_msg [x])
      | None \<Rightarrow> Inr (acc @ args))"
  by (induction args arbitrary: acc) (simp_all split: option.splits)

text \<open>
  C5 (as amended). In the function generated for an operator with a node-array argument,
  let \<open>x\<close> be the first positional value that is not a node reference. The call
  raises \<^verbatim>\<open>AssertionError\<close>, the failed \<^verbatim>\<open>assert\<close> of the body, whose
  message is formatted with \<open>x\<close>, and the world after the call is the world before
  it: the list of requests handed to the creator and the counters of the name manager
  are untouched.
\<close>

theorem positional_non_node_rejected:
  assumes "find (\<lambda>i. \<not> is_symbol i) args = Some x"
  shows "variadic_function np_dtype handle func_name dn key_var_num_args args kwargs w =
           (Inl (AssertionError positional_msg [x]), w) \<and> x \<in> set args \<and> \<not> is_symbol x"
proof -
  from assms have "sym_args_loop [] args = Inl (AssertionError positional_msg [x])"
    by (simp add: sym_args_loop_find)
  moreover from assms have "x \<in> set args \<and> \<not> is_symbol x"
    by (auto simp: find_Some_iff)
  ultimately show ?thesis
    by (simp add: variadic_function_def)
qed

theorem positional_non_node_rejected_witness:
  "variadic_function np_dtype_sample 7 ''Concat'' None ''num_args''
     [SymV 1, IntV 2, NoneV] [(''dim'', IntV 1)] empty_world =
     (Inl (AssertionError positional_msg [IntV 2]), empty_world)"
  using positional_non_node_rejected
    [of "[SymV 1, IntV 2, NoneV]" "IntV 2" np_dtype_sample 7 "''Concat''" None "''num_args''"
        "[(''dim'', IntV 1)]" empty_world]
  by simp

text \<open>
  C5 as stated fails on the class of the error: the positional value \<^verbatim>\<open>2\<close> makes
  the call raise \<^verbatim>\<open>AssertionError\<close>, which is not a \<^verbatim>\<open>TypeError\<close>.
\<close>

theorem positional_non_node_counterexample:
  "variadic_function np_dtype_sample 3 ''Concat'' None ''num_args'' [SymV 1, IntV 2] []
     empty_world =
     (Inl (AssertionError positional_msg [IntV 2]), empty_world) \<and>
   \<not> is_type_error (AssertionError positional_msg [IntV 2])"
  by (simp add: variadic_function_def)

section \<open>The name dtype\<close>

lemma classify_arg_dtype:
  "fst a = ''dtype'' \<Longrightarrow>
   classify_arg s a =
     Inr (s\<lparr>dtype_name := Some ''dtype'', signature := signature s @ [NullDefault ''dtype'']\<rparr>)"
  by (simp add: classify_arg_def Let_def)

lemma classify_arg_scalar_only:
  "classify_arg s a = Inr s' \<Longrightarrow> dtype_scalar_only s \<Longrightarrow> dtype_scalar_only s'"
  by (auto simp: classify_arg_def dtype_scalar_only_def Let_def split: if_splits)

lemma classify_args_scalar_only:
  "classify_args s as = Inr s' \<Longrightarrow> dtype_scalar_only s \<Longrightarrow> dtype_scalar_only s'"
proof (induction as arbitrary: s)
  case Nil
  then show ?case by simp
next
  case (Cons a as)
  then show ?case
    by (auto split: sum.splits dest: classify_arg_scalar_only)
qed

lemma classify_arg_seen:
  "classify_arg s a = Inr s' \<Longrightarrow> dtype_seen s \<or> fst a = ''dtype'' \<Longrightarrow> dtype_seen s'"
  by (auto simp: classify_arg_def dtype_seen_def Let_def split: if_splits)

lemma classify_args_seen:
  "classify_args s as = Inr s' \<Longrightarrow> dtype_seen s \<or> ''dtype'' \<in> fst ` set as \<Longrightarrow> dtype_seen s'"
proof (induction as arbitrary: s)
  case Nil
  then show ?case by simp
next
  case (Cons a as)
  from Cons.prems(1) obtain s1
    where s1: "classify_arg s a = Inr s1" "classify_args s1 as = Inr s'"
    by (auto split: sum.splits)
  show ?case
  proof (cases "dtype_seen s \<or> fst a = ''dtype''")
    case True
    with s1(1) have "dtype_seen s1" by (rule classify_arg_seen)
    with Cons.IH [OF s1(2)] show ?thesis by simp
  next
    case False
    with Cons.prems(2) have "''dtype'' \<in> fst ` set as" by auto
    with Cons.IH [OF s1(2)] show ?thesis by simp
  qed
qed

text \<open>
  C6. The test \<^verbatim>\<open>name == 'dtype'\<close> comes first. One round of the loop on an
  argument named \<^verbatim>\<open>dtype\<close> never fails, whatever the type tag and whatever the
  state (also after a node-array argument); it sets \<^verbatim>\<open>dtype_name\<close> and appends the
  scalar entry \<^verbatim>\<open>dtype=_Null\<close>, and touches nothing else. In every signature that
  classification returns, \<^verbatim>\<open>dtype\<close> is neither the node-array name nor one of the
  single-node names nor a plain scalar name, and no node entry of the signature carries
  it; when an argument of that name was declared, \<^verbatim>\<open>dtype_name\<close> is set.
\<close>

theorem dtype_always_scalar:
  "(fst a = ''dtype'' \<longrightarrow>
      classify_arg s a =
        Inr (s\<lparr>dtype_name := Some ''dtype'',
               signature := signature s @ [NullDefault ''dtype'']\<rparr>)) \<and>
   (classify args = Inr sg \<longrightarrow>
      ''dtype'' \<notin> set (ndarg_names sg) \<and> ''dtype'' \<notin> set (kwarg_names sg) \<and>
      arr_name sg \<noteq> Some ''dtype'' \<and>
      Star ''dtype'' \<notin> set (signature sg) \<and> NoneDefault ''dtype'' \<notin> set (signature sg) \<and>
      (''dtype'' \<in> fst ` set args \<longrightarrow>
         dtype_name sg = Some ''dtype'' \<and> NullDefault ''dtype'' \<in> set (signature sg)))"
proof (intro conjI impI)
  assume "fst a = ''dtype''"
  then show "classify_arg s a =
        Inr (s\<lparr>dtype_name := Some ''dtype'',
               signature := signature s @ [NullDefault ''dtype'']\<rparr>)"
    by (rule classify_arg_dtype)
next
  assume c: "classify args = Inr sg"
  then obtain s1 where s1: "classify_args init_signature args = Inr s1"
    and sg: "sg = s1\<lparr>signature := ndsignature s1 @ signature s1 @
                   [NoneDefault ''name'', NoneDefault ''attr'', NoneDefault ''out'', KwTail]\<rparr>"
    by (auto simp: classify_def split: sum.splits)
  have "dtype_scalar_only init_signature"
    by (simp add: dtype_scalar_only_def init_signature_def)
  with s1 have inv: "dtype_scalar_only s1" by (rule classify_args_scalar_only)
  from inv sg show "''dtype'' \<notin> set (ndarg_names sg)" by (simp add: dtype_scalar_only_def)
  from inv sg show "''dtype'' \<notin> set (kwarg_names sg)" by (simp add: dtype_scalar_only_def)
  from inv sg show "arr_name sg \<noteq> Some ''dtype''" by (simp add: dtype_scalar_only_def)
  from inv sg show "Star ''dtype'' \<notin> set (signature sg)" by (simp add: dtype_scalar_only_def)
  from inv sg show "NoneDefault ''dtype'' \<notin> set (signature sg)"
    by (simp add: dtype_scalar_only_def)
  assume "''dtype'' \<in> fst ` set args"
  with s1 have seen: "dtype_seen s1" by (auto dest: classify_args_seen)
  with sg show "dtype_name sg = Some ''dtype''" by (simp add: dtype_seen_def)
  from seen sg show "NullDefault ''dtype'' \<in> set (signature sg)" by (simp add: dtype_seen_def)
qed

theorem dtype_always_scalar_witness:
  "classify_arg (init_signature\<lparr>arr_name := Some ''data''\<rparr>) (''dtype'', ''Symbol[]'') =
     Inr (init_signature\<lparr>arr_name := Some ''data'', dtype_name := Some ''dtype'',
            signature := [NullDefault ''dtype'']\<rparr>) \<and>
   classify [(''data'', ''Symbol[]''), (''dtype'', ''NDArray[]'')] =
     Inr \<lparr>dtype_name = Some ''dtype'', arr_name = Some ''data'',
          ndsignature = [Star ''data''],
          signature = [Star ''data'', NullDefault ''dtype'', NoneDefault ''name'',
                       NoneDefault ''attr'', NoneDefault ''out'', KwTail],
          ndarg_names = [], kwarg_names = []\<rparr>"
  using dtype_always_scalar
    [of "(''dtype'', ''Symbol[]'')" "init_signature\<lparr>arr_name := Some ''data''\<rparr>"
        "[(''data'', ''Symbol[]''), (''dtype'', ''NDArray[]'')]"
        "\<lparr>dtype_name = Some ''dtype'', arr_name = Some ''data'',
          ndsignature = [Star ''data''],
          signature = [Star ''data'', NullDefault ''dtype'', NoneDefault ''name'',
                       NoneDefault ''attr'', NoneDefault ''out'', KwTail],
          ndarg_names = [], kwarg_names = []\<rparr>"]
  by (simp add: classify_def classify_arg_def init_signature_def startswith_def endswith_def
        Let_def)

section \<open>When classification fails\<close>

lemma classify_arg_cases:
  "classify_arg s a =
     (if node_typed a \<and> truthy (arr_name s) then Inl (AssertionError one_variadic_msg [])
      else Inr (if fst a = ''dtype'' then
                  s\<lparr>dtype_name := Some (fst a), signature := signature s @ [NullDefault (fst a)]\<rparr>
                else if node_array_typed a then
                  s\<lparr>ndsignature := ndsignature s @ [Star (fst a)], arr_name := Some (fst a)\<rparr>
                else if node_typed a then
                  s\<lparr>ndsignature := ndsignature s @ [NoneDefault (fst a)],
                    ndarg_names := ndarg_names s @ [fst a]\<rparr>
                else s\<lparr>signature := signature s @ [NullDefault (fst a)],
                       kwarg_names := kwarg_names s @ [fst a]\<rparr>))"
  by (simp add: classify_arg_def node_typed_def node_array_typed_def Let_def)

lemma classify_args_fails:
  "(\<exists>e. classify_args s as = Inl e) =
     ((truthy (arr_name s) \<and> list_ex node_typed as) \<or> node_after_array as)"
proof (induction as arbitrary: s)
  case Nil
  then show ?case by simp
next
  case (Cons a as)
  show ?case
  proof (cases "node_typed a \<and> truthy (arr_name s)")
    case True
    then show ?thesis by (simp add: classify_arg_cases)
  next
    case False
    then obtain s1 where s1: "classify_arg s a = Inr s1"
      by (simp add: classify_arg_cases)
    with False have t:
      "truthy (arr_name s1) = (truthy (arr_name s) \<or> (node_array_typed a \<and> fst a \<noteq> []))"
      by (auto simp: classify_arg_cases node_array_typed_def node_typed_def split: if_splits)
    from False have "node_array_typed a \<Longrightarrow> \<not> truthy (arr_name s)"
      by (auto simp: node_array_typed_def)
    with s1 t False Cons.IH [of s1] show ?thesis
      by auto
  qed
qed

lemma classify_args_error:
  "classify_args s as = Inl e \<Longrightarrow> e = AssertionError one_variadic_msg []"
proof (induction as arbitrary: s)
  case Nil
  then show ?case by simp
next
  case (Cons a as)
  then show ?case
    by (auto simp: classify_arg_cases split: sum.splits if_splits)
qed

lemma list_ex_nth: "list_ex P xs = (\<exists>j<length xs. P (xs ! j))"
  unfolding list_ex_iff by (metis in_set_conv_nth)

lemma node_after_array_nth:
  "node_after_array as =
     (\<exists>i j. i < j \<and> j < length as \<and> node_array_typed (as ! i) \<and> fst (as ! i) \<noteq> [] \<and>
            node_typed (as ! j))"
proof (induction as)
  case Nil
  then show ?case by simp
next
  case (Cons a as)
  let ?A = "\<lambda>x. node_array_typed x \<and> fst x \<noteq> []"
  have "(\<exists>i j. i < j \<and> j < length (a # as) \<and> ?A ((a # as) ! i) \<and> node_typed ((a # as) ! j)) =
        ((?A a \<and> (\<exists>j<length as. node_typed (as ! j))) \<or>
         (\<exists>i j. i < j \<and> j < length as \<and> ?A (as ! i) \<and> node_typed (as ! j)))"
    (is "?L = (?M \<or> ?R)")
  proof
    assume ?L
    then obtain i j where ij: "i < j" "j < length (a # as)" "?A ((a # as) ! i)"
      "node_typed ((a # as) ! j)" by blast
    from ij(1) obtain j' where j': "j = Suc j'" by (cases j) auto
    show "?M \<or> ?R"
    proof (cases i)
      case 0
      with ij j' show ?thesis by auto
    next
      case (Suc i')
      with ij j' have "i' < j' \<and> j' < length as \<and> ?A (as ! i') \<and> node_typed (as ! j')" by auto
      then show ?thesis by blast
    qed
  next
    assume "?M \<or> ?R"
    then show ?L
    proof
      assume ?M
      then obtain j where "j < length as" "node_typed (as ! j)" "?A a" by blast
      then have "0 < Suc j \<and> Suc j < length (a # as) \<and> ?A ((a # as) ! 0) \<and>
                 node_typed ((a # as) ! Suc j)" by simp
      then show ?L by blast
    next
      assume ?R
      then obtain i j where "i < j" "j < length as" "?A (as ! i)" "node_typed (as ! j)" by blast
      then have "Suc i < Suc j \<and> Suc j < length (a # as) \<and> ?A ((a # as) ! Suc i) \<and>
                 node_typed ((a # as) ! Suc j)" by simp
      then show ?L by blast
    qed
  qed
  with Cons.IH show ?case by (simp add: list_ex_nth)
qed

text \<open>
  C2 (as amended). Classification fails exactly when some node-typed argument (single node
  or node array, not named \<^verbatim>\<open>dtype\<close>) is declared after a node-array argument
  with a non-empty name, and the failure is the assertion of the node branch; for every
  other argument list it returns a signature. Scalar arguments after the node-array
  argument are accepted.
\<close>

theorem classification_fails_iff:
  "(classify args = Inl (AssertionError one_variadic_msg [])) =
     (\<exists>i j. i < j \<and> j < length args \<and> node_array_typed (args ! i) \<and> fst (args ! i) \<noteq> [] \<and>
            node_typed (args ! j)) \<and>
   ((\<exists>sg. classify args = Inr sg) =
     (\<not> (\<exists>i j. i < j \<and> j < length args \<and> node_array_typed (args ! i) \<and> fst (args ! i) \<noteq> [] \<and>
            node_typed (args ! j))))"
proof -
  have f: "(\<exists>e. classify args = Inl e) = (\<exists>e. classify_args init_signature args = Inl e)"
    by (auto simp: classify_def split: sum.splits)
  have e: "classify args = Inl e \<Longrightarrow> e = AssertionError one_variadic_msg []" for e
    by (auto simp: classify_def split: sum.splits dest: classify_args_error)
  have "(\<exists>e. classify args = Inl e) = node_after_array args"
    unfolding f classify_args_fails by (simp add: init_signature_def)
  then have a: "(classify args = Inl (AssertionError one_variadic_msg [])) = node_after_array args"
    using e by blast
  have "(\<exists>sg. classify args = Inr sg) = (\<not> (\<exists>e. classify args = Inl e))"
    by (cases "classify args") auto
  with a e have b: "(\<exists>sg. classify args = Inr sg) = (\<not> node_after_array args)"
    by blast
  from a b show ?thesis
    unfolding node_after_array_nth by blast
qed

text \<open>
  C2 as stated fails: in \<^verbatim>\<open>[data: Symbol[], num_args: int]\<close> the node-array
  argument is not the last declared argument, and classification succeeds.
\<close>

theorem classification_counterexample:
  "spec_signature_error [(''data'', ''Symbol[]''), (''num_args'', ''int'')] \<and>
   classify [(''data'', ''Symbol[]''), (''num_args'', ''int'')] =
     Inr \<lparr>dtype_name = None, arr_name = Some ''data'', ndsignature = [Star ''data''],
          signature = [Star ''data'', NullDefault ''num_args'', NoneDefault ''name'',
                       NoneDefault ''attr'', NoneDefault ''out'', KwTail],
          ndarg_names = [], kwarg_names = [''num_args'']\<rparr>"
  by (simp add: spec_signature_error_def node_array_typed_def node_typed_def classify_def
        classify_arg_def init_signature_def startswith_def endswith_def Let_def)

theorem classification_fails_iff_witness:
  "classify [(''data'', ''Symbol[]''), (''label'', ''Symbol'')] =
     Inl (AssertionError one_variadic_msg []) \<and>
   (\<exists>sg. classify [(''data'', ''Symbol[]''), (''num_args'', ''int''), (''dim'', ''int'')] = Inr sg)"
proof -
  have "(0::nat) < 1 \<and> (1::nat) < length [(''data'', ''Symbol[]''), (''label'', ''Symbol'')] \<and>
        node_array_typed ([(''data'', ''Symbol[]''), (''label'', ''Symbol'')] ! 0) \<and>
        fst ([(''data'', ''Symbol[]''), (''label'', ''Symbol'')] ! 0) \<noteq> [] \<and>
        node_typed ([(''data'', ''Symbol[]''), (''label'', ''Symbol'')] ! 1)"
    by (simp add: node_array_typed_def node_typed_def startswith_def endswith_def)
  then have 1: "classify [(''data'', ''Symbol[]''), (''label'', ''Symbol'')] =
     Inl (AssertionError one_variadic_msg [])"
    using classification_fails_iff [of "[(''data'', ''Symbol[]''), (''label'', ''Symbol'')]"]
    by blast
  have "\<not> (\<exists>i j. i < j \<and> j < length [(''data'', ''Symbol[]''), (''num_args'', ''int''), (''dim'', ''int'')] \<and>
           node_array_typed ([(''data'', ''Symbol[]''), (''num_args'', ''int''), (''dim'', ''int'')] ! i) \<and>
           fst ([(''data'', ''Symbol[]''), (''num_args'', ''int''), (''dim'', ''int'')] ! i) \<noteq> [] \<and>
           node_typed ([(''data'', ''Symbol[]''), (''num_args'', ''int''), (''dim'', ''int'')] ! j))"
    by (auto simp: node_typed_def startswith_def less_Suc_eq nth_Cons')
  then have 2: "\<exists>sg. classify [(''data'', ''Symbol[]''), (''num_args'', ''int''), (''dim'', ''int'')] = Inr sg"
    using classification_fails_iff [of "[(''data'', ''Symbol[]''), (''num_args'', ''int''), (''dim'', ''int'')]"]
    by blast
  from 1 2 show ?thesis by blast
qed

section \<open>Facts about dictionaries and the loop over the keyword mapping\<close>

lemma map_of_dict_set: "map_of (dict_set d k v) = (map_of d)(k \<mapsto> v)"
  by (induction d k v rule: dict_set.induct) auto

lemma keys_dict_set:
  "map fst (dict_set d k v) = (if k \<in> fst ` set d then map fst d else map fst d @ [k])"
  by (induction d k v rule: dict_set.induct) auto

lemma distinct_dict_set: "distinct (map fst d) \<Longrightarrow> distinct (map fst (dict_set d k v))"
  by (simp add: keys_dict_set)

lemma distinct_dict_update: "distinct (map fst d) \<Longrightarrow> distinct (map fst (dict_update d e))"
  by (induction d e rule: dict_update.induct) (simp_all add: distinct_dict_set)

lemma dict_set_fresh: "k \<notin> fst ` set d \<Longrightarrow> dict_set d k v = d @ [(k, v)]"
  by (induction d k v rule: dict_set.induct) auto

lemma dict_update_fresh:
  "distinct (map fst e) \<Longrightarrow> fst ` set d \<inter> fst ` set e = {} \<Longrightarrow> dict_update d e = d @ e"
proof (induction d e rule: dict_update.induct)
  case (1 d)
  then show ?case by simp
next
  case (2 d k v e)
  from "2.prems" have k: "k \<notin> fst ` set d" by auto
  then have s: "dict_set d k v = d @ [(k, v)]" by (rule dict_set_fresh)
  from "2.prems" have "distinct (map fst e)" "fst ` set (d @ [(k, v)]) \<inter> fst ` set e = {}"
    by auto
  with "2.IH" s show ?case by simp
qed

lemma map_of_dict_update:
  "map_of (dict_update d e) k =
     (case map_of (rev e) k of Some v \<Rightarrow> Some v | None \<Rightarrow> map_of d k)"
proof (induction d e rule: dict_update.induct)
  case (1 d)
  then show ?case by simp
next
  case (2 d k' v e)
  then show ?case
    by (simp add: map_of_dict_set map_add_def split: option.splits)
qed

lemma map_of_rev_distinct: "distinct (map fst e) \<Longrightarrow> map_of (rev e) = map_of e"
  using map_of_inject_set [of "rev e" e] by (simp add: rev_map [symmetric])

lemma keyset_dict_set: "fst ` set (dict_set d k v) = insert k (fst ` set d)"
  by (induction d k v rule: dict_set.induct) auto

lemma keyset_dict_update: "fst ` set (dict_update d e) = fst ` set d \<union> fst ` set e"
  by (induction d e rule: dict_update.induct) (simp_all add: keyset_dict_set)

lemma route_kwargs_eq:
  "route_kwargs kwargs (sk, ks, vs) =
     (dict_update sk (node_items kwargs),
      ks @ map fst (scalar_items kwargs), vs @ map snd (scalar_items kwargs))"
  by (induction kwargs arbitrary: sk ks vs) (auto simp: node_items_def scalar_items_def)

lemma node_items_dict: "distinct (map fst kwargs) \<Longrightarrow> dict_update [] (node_items kwargs) = node_items kwargs"
  by (rule trans [OF dict_update_fresh]) (simp_all add: node_items_def distinct_map_filter)

lemma filter_key_distinct:
  "distinct (map fst d) \<Longrightarrow> map_of d k = Some x \<Longrightarrow> filter (\<lambda>e. fst e = k) d = [(k, x)]"
proof (induction d)
  case Nil
  then show ?case by simp
next
  case (Cons a d)
  show ?case
  proof (cases "fst a = k")
    case True
    with Cons.prems have "a = (k, x)" by (cases a) auto
    moreover from True Cons.prems(1) have "k \<notin> fst ` set d" by auto
    then have "\<forall>e\<in>set d. fst e \<noteq> k" by auto
    then have "filter (\<lambda>e. fst e = k) d = []"
      by (simp add: filter_empty_conv)
    ultimately show ?thesis by simp
  next
    case False
    with Cons show ?thesis by auto
  qed
qed

section \<open>The generated functions in terms of their views\<close>

lemma variadic_function_view:
  "variadic_function np_dtype handle func_name dn key_var_num_args args kwargs w =
     (case find (\<lambda>i. \<not> is_symbol i) args of
        Some x \<Rightarrow> (Inl (AssertionError positional_msg [x]), w)
      | None \<Rightarrow>
          (case variadic_kwargs np_dtype dn kwargs w of
             Inl e \<Rightarrow> (Inl e, w)
           | Inr (nm, kwargs') \<Rightarrow>
               symbol_creator
                 (variadic_request handle key_var_num_args args kwargs'
                    (fst (name_manager_get (name_counter w) nm (lower func_name))))
                 (w\<lparr>name_counter :=
                      snd (name_manager_get (name_counter w) nm (lower func_name))\<rparr>)))"
  by (simp add: variadic_function_def variadic_kwargs_def variadic_request_def injected_def
        inject_num_args_def sym_args_loop_find route_kwargs_eq Let_def
        split: option.splits sum.splits prod.splits)

lemma variadic_function_success:
  assumes "variadic_function np_dtype handle func_name dn key_var_num_args args kwargs w =
             (Inr s, w')"
  shows "\<exists>nm kwargs'.
           variadic_kwargs np_dtype dn kwargs w = Inr (nm, kwargs') \<and>
           find (\<lambda>i. \<not> is_symbol i) args = None \<and>
           w' = w\<lparr>name_counter := snd (name_manager_get (name_counter w) nm (lower func_name)),
                  created := created w @
                    [variadic_request handle key_var_num_args args kwargs'
                       (fst (name_manager_get (name_counter w) nm (lower func_name)))]\<rparr>"
  using assms unfolding variadic_function_view
  by (auto simp: symbol_creator_def split: option.splits sum.splits)

lemma kw_args_eq:
  "kw_args ns frame (ks, vs) =
     (ks @ map fst (declared_items frame ns), vs @ map snd (declared_items frame ns))"
  by (induction ns arbitrary: ks vs) (simp_all add: declared_items_def Let_def)

lemma dtype_arg_eq:
  "dtype_arg np_dtype dn frame kv = Inr kv' \<Longrightarrow>
   kv' = (fst kv @ map fst (dtype_items np_dtype dn frame),
          snd kv @ map snd (dtype_items np_dtype dn frame))"
  by (auto simp: dtype_arg_def dtype_items_def Let_def split: option.splits if_splits)

lemma dtype_arg_fails:
  "(dtype_arg np_dtype dn frame kv = Inl e) = (dtype_arg np_dtype dn frame ([], []) = Inl e)"
  by (auto simp: dtype_arg_def Let_def split: option.splits if_splits)

lemma keyword_function_view:
  "keyword_function np_dtype handle func_name sg args kw w =
     (case keyword_frame sg args kw w of
        Inl e \<Rightarrow> (Inl e, w)
      | Inr (frame, kwargs) \<Rightarrow>
          (case nd_args (ndarg_names sg) frame (dict_update [] (node_items kwargs)) of
             Inl e \<Rightarrow> (Inl e, w)
           | Inr sym_kwargs \<Rightarrow>
               (case dtype_arg np_dtype (dtype_name sg) frame ([], []) of
                  Inl e \<Rightarrow> (Inl e, w)
                | Inr kv \<Rightarrow>
                    symbol_creator
                      (keyword_request np_dtype handle sg frame kwargs sym_kwargs
                         (fst (name_manager_get (name_counter w) (local_var frame ''name'')
                                 (lower func_name))))
                      (w\<lparr>name_counter :=
                           snd (name_manager_get (name_counter w) (local_var frame ''name'')
                                  (lower func_name))\<rparr>))))"
proof (cases "keyword_frame sg args kw w")
  case (Inl e)
  then show ?thesis
    by (auto simp: keyword_function_def keyword_frame_def split: sum.splits prod.splits)
next
  case (Inr fk)
  obtain frame kwargs where fk: "fk = (frame, kwargs)" by (cases fk)
  from Inr fk obtain frame0 kwargs0 merged where
    b: "bind_args (signature sg) args kw = Inr (frame0, kwargs0)" and
    m: "attr_scope_get (attr_scope w) (local_var frame0 ''attr'') = Inr merged" and
    k: "kwargs = dict_update kwargs0 (str_attrs merged)" and
    f: "frame = loop_targets kwargs frame0"
    by (auto simp: keyword_frame_def split: sum.splits prod.splits)
  show ?thesis
  proof (cases "nd_args (ndarg_names sg) frame (dict_update [] (node_items kwargs))")
    case (Inl e)
    with Inr fk b m k f show ?thesis
      by (simp add: keyword_function_def route_kwargs_eq Let_def)
  next
    case nd: (Inr sym_kwargs)
    show ?thesis
    proof (cases "dtype_arg np_dtype (dtype_name sg) frame ([], [])")
      case (Inl e)
      then have "dtype_arg np_dtype (dtype_name sg) frame
                   (kw_args (kwarg_names sg) frame (map fst (scalar_items kwargs),
                                                   map snd (scalar_items kwargs))) = Inl e"
        using dtype_arg_fails by blast
      with Inl Inr fk b m k f nd show ?thesis
        by (simp add: keyword_function_def route_kwargs_eq Let_def)
    next
      case ok: (Inr kv0)
      have "\<exists>kv. dtype_arg np_dtype (dtype_name sg) frame
                   (kw_args (kwarg_names sg) frame (map fst (scalar_items kwargs),
                                                   map snd (scalar_items kwargs))) = Inr kv"
      proof (cases "dtype_arg np_dtype (dtype_name sg) frame
                   (kw_args (kwarg_names sg) frame (map fst (scalar_items kwargs),
                                                   map snd (scalar_items kwargs)))")
        case (Inl e)
        then have "dtype_arg np_dtype (dtype_name sg) frame ([], []) = Inl e"
          using dtype_arg_fails by blast
        with ok show ?thesis by simp
      next
        case (Inr kv)
        then show ?thesis by blast
      qed
      then obtain kv where kv: "dtype_arg np_dtype (dtype_name sg) frame
                   (kw_args (kwarg_names sg) frame (map fst (scalar_items kwargs),
                                                   map snd (scalar_items kwargs))) = Inr kv"
        by blast
      from dtype_arg_eq [OF kv] have
        "kv = (map fst (scalar_items kwargs @ declared_items frame (kwarg_names sg) @
                        dtype_items np_dtype (dtype_name sg) frame),
               map snd (scalar_items kwargs @ declared_items frame (kwarg_names sg) @
                        dtype_items np_dtype (dtype_name sg) frame))"
        by (simp add: kw_args_eq)
      with kv ok Inr fk b m k f nd show ?thesis
        by (simp add: keyword_function_def route_kwargs_eq Let_def keyword_request_def
              split: prod.splits)
    qed
  qed
qed

lemma keyword_function_success:
  assumes "keyword_function np_dtype handle func_name sg args kw w = (Inr s, w')"
  shows "\<exists>frame kwargs sym_kwargs.
           keyword_frame sg args kw w = Inr (frame, kwargs) \<and>
           nd_args (ndarg_names sg) frame (dict_update [] (node_items kwargs)) = Inr sym_kwargs \<and>
           w' = w\<lparr>name_counter :=
                    snd (name_manager_get (name_counter w) (local_var frame ''name'')
                           (lower func_name)),
                  created := created w @
                    [keyword_request np_dtype handle sg frame kwargs sym_kwargs
                       (fst (name_manager_get (name_counter w) (local_var frame ''name'')
                               (lower func_name)))]\<rparr>"
  using assms unfolding keyword_function_view
  by (auto simp: symbol_creator_def split: sum.splits)

section \<open>Evaluation of concrete calls\<close>

lemmas run_defs =
  variadic_function_def keyword_function_def bind_args_def attr_scope_get_def
  name_manager_get_def symbol_creator_def coerce_dtype_def dict_pop_def dict_contains_def
  inject_num_args_def str_attrs_def loop_targets_def local_var_def dtype_arg_def
  lower_def lower_char_def digit_char_def str_nat.simps np_dtype_sample_def empty_world_def
  scoped_world_def sample_signature_def topk_signature_def Let_def

lemma classify_sample: "classify sample_decl = Inr sample_signature"
  by (simp add: sample_decl_def sample_signature_def classify_def classify_arg_def
        init_signature_def startswith_def endswith_def Let_def)

section \<open>Order of the entries in the keyword form\<close>

text \<open>
  C10. When the function generated for an operator without a node-array argument
  reaches the creator, the request has \<^verbatim>\<open>None\<close> for the positional nodes, and
  \<^verbatim>\<open>keys\<close> and \<^verbatim>\<open>vals\<close> are made of three parts in this order: the
  non-node items of the keyword mapping (the open tail updated with the merged
  attributes), then the entries of the declared scalar parameters that are not
  \<^verbatim>\<open>_Null\<close> in declaration order, then the entry of \<^verbatim>\<open>dtype\<close>, which is one
  entry at most.
\<close>

theorem keyword_only_order:
  assumes "keyword_function np_dtype handle func_name sg args kw w = (Inr s, w')"
  shows "\<exists>frame0 kwargs0 merged frame kwargs r.
           bind_args (signature sg) args kw = Inr (frame0, kwargs0) \<and>
           attr_scope_get (attr_scope w) (local_var frame0 ''attr'') = Inr merged \<and>
           kwargs = dict_update kwargs0 (str_attrs merged) \<and>
           frame = loop_targets kwargs frame0 \<and>
           created w' = created w @ [r] \<and>
           req_sym_args r = None \<and>
           req_keys r =
             map fst (scalar_items kwargs) @
             filter (\<lambda>n. local_var frame n \<noteq> NullV) (kwarg_names sg) @
             map fst (dtype_items np_dtype (dtype_name sg) frame) \<and>
           req_vals r =
             map snd (scalar_items kwargs) @
             map (local_var frame) (filter (\<lambda>n. local_var frame n \<noteq> NullV) (kwarg_names sg)) @
             map snd (dtype_items np_dtype (dtype_name sg) frame) \<and>
           length (dtype_items np_dtype (dtype_name sg) frame) \<le> 1"
proof -
  from keyword_function_success [OF assms] obtain frame kwargs sym_kwargs where
    fr: "keyword_frame sg args kw w = Inr (frame, kwargs)" and
    w': "w' = w\<lparr>name_counter :=
                    snd (name_manager_get (name_counter w) (local_var frame ''name'')
                           (lower func_name)),
                  created := created w @
                    [keyword_request np_dtype handle sg frame kwargs sym_kwargs
                       (fst (name_manager_get (name_counter w) (local_var frame ''name'')
                               (lower func_name)))]\<rparr>"
    by blast
  from fr obtain frame0 kwargs0 merged where
    b: "bind_args (signature sg) args kw = Inr (frame0, kwargs0)" and
    m: "attr_scope_get (attr_scope w) (local_var frame0 ''attr'') = Inr merged" and
    k: "kwargs = dict_update kwargs0 (str_attrs merged)" and
    f: "frame = loop_targets kwargs frame0"
    by (auto simp: keyword_frame_def split: sum.splits prod.splits)
  have d1: "map fst (declared_items frame (kwarg_names sg)) =
              filter (\<lambda>n. local_var frame n \<noteq> NullV) (kwarg_names sg)"
    by (induction "kwarg_names sg") (simp_all add: declared_items_def filter_map comp_def)
  have d2: "map snd (declared_items frame (kwarg_names sg)) =
              map (local_var frame) (filter (\<lambda>n. local_var frame n \<noteq> NullV) (kwarg_names sg))"
    by (simp add: declared_items_def filter_map comp_def)
  have l: "length (dtype_items np_dtype (dtype_name sg) frame) \<le> 1"
    by (simp add: dtype_items_def split: option.splits)
  let ?r = "keyword_request np_dtype handle sg frame kwargs sym_kwargs
              (fst (name_manager_get (name_counter w) (local_var frame ''name'')
                      (lower func_name)))"
  from w' have "created w' = created w @ [?r]" by simp
  moreover have "req_sym_args ?r = None" by (simp add: keyword_request_def)
  moreover have "req_keys ?r =
             map fst (scalar_items kwargs) @
             filter (\<lambda>n. local_var frame n \<noteq> NullV) (kwarg_names sg) @
             map fst (dtype_items np_dtype (dtype_name sg) frame)"
    by (simp add: keyword_request_def d1)
  moreover have "req_vals ?r =
             map snd (scalar_items kwargs) @
             map (local_var frame) (filter (\<lambda>n. local_var frame n \<noteq> NullV) (kwarg_names sg)) @
             map snd (dtype_items np_dtype (dtype_name sg) frame)"
    by (simp add: keyword_request_def d2)
  ultimately show ?thesis using b m k f l by blast
qed

theorem keyword_only_order_witness:
  "keyword_function np_dtype_sample 7 ''Cast'' sample_signature []
     [(''data'', SymV 1), (''dtype'', StrV ''float32''), (''extra'', IntV 9), (''axis'', IntV 0)]
     scoped_world =
     (Inr (SymV 0),
      \<lparr>attr_scope = [(''ctx_group'', ''dev1'')], name_counter = [(''cast'', 1)],
       created =
         [\<lparr>req_handle = 7, req_sym_args = None, req_sym_kwargs = [(''data'', SymV 1)],
           req_keys = [''extra'', ''ctx_group'', ''axis'', ''dtype''],
           req_vals = [IntV 9, StrV ''dev1'', IntV 0, StrV ''float32''],
           req_name = StrV ''cast0''\<rparr>]\<rparr>) \<and>
   (\<exists>r. created (snd (keyword_function np_dtype_sample 7 ''Cast'' sample_signature []
            [(''data'', SymV 1), (''dtype'', StrV ''float32''), (''extra'', IntV 9),
             (''axis'', IntV 0)] scoped_world)) = created scoped_world @ [r] \<and>
        req_sym_args r = None)"
proof -
  have h: "keyword_function np_dtype_sample 7 ''Cast'' sample_signature []
     [(''data'', SymV 1), (''dtype'', StrV ''float32''), (''extra'', IntV 9), (''axis'', IntV 0)]
     scoped_world =
     (Inr (SymV 0),
      \<lparr>attr_scope = [(''ctx_group'', ''dev1'')], name_counter = [(''cast'', 1)],
       created =
         [\<lparr>req_handle = 7, req_sym_args = None, req_sym_kwargs = [(''data'', SymV 1)],
           req_keys = [''extra'', ''ctx_group'', ''axis'', ''dtype''],
           req_vals = [IntV 9, StrV ''dev1'', IntV 0, StrV ''float32''],
           req_name = StrV ''cast0''\<rparr>]\<rparr>)"
    by (simp add: run_defs)
  from keyword_only_order [OF h] have
    "\<exists>r. [\<lparr>req_handle = 7, req_sym_args = None, req_sym_kwargs = [(''data'', SymV 1)],
           req_keys = [''extra'', ''ctx_group'', ''axis'', ''dtype''],
           req_vals = [IntV 9, StrV ''dev1'', IntV 0, StrV ''float32''],
           req_name = StrV ''cast0''\<rparr>] = created scoped_world @ [r] \<and> req_sym_args r = None"
    by auto
  with h show ?thesis by simp
qed

section \<open>Keys and values go in pairs\<close>

text \<open>
  Paired appends. Whenever a generated function reaches the creator, \<^verbatim>\<open>keys\<close> and
  \<^verbatim>\<open>vals\<close> have the same length and are the two projections of one list of
  entries, so that \<^verbatim>\<open>vals[i]\<close> is the value appended together with
  \<^verbatim>\<open>keys[i]\<close>. In the node-array form the entries are the non-node items of the
  keyword mapping followed by the injected count, if any. In the keyword form they are
  the non-node items of the keyword mapping, then each declared scalar parameter that is
  not \<^verbatim>\<open>_Null\<close> with the value its local variable holds, then the entry of
  \<^verbatim>\<open>dtype\<close> with the coerced name.
\<close>

lemma keys_vals_aligned:
  "(variadic_function np_dtype handle func_name dn key_var_num_args args kwargs w = (Inr s, w') \<longrightarrow>
      (\<exists>nm kwargs' r.
         variadic_kwargs np_dtype dn kwargs w = Inr (nm, kwargs') \<and>
         created w' = created w @ [r] \<and>
         length (req_keys r) = length (req_vals r) \<and>
         zip (req_keys r) (req_vals r) =
           scalar_items kwargs' @ injected key_var_num_args kwargs' args \<and>
         (\<forall>i<length (req_keys r).
            (req_keys r ! i, req_vals r ! i) =
              (scalar_items kwargs' @ injected key_var_num_args kwargs' args) ! i))) \<and>
   (keyword_function np_dtype handle func_name sg args kw w = (Inr s, w') \<longrightarrow>
      (\<exists>frame kwargs' r.
         keyword_frame sg args kw w = Inr (frame, kwargs') \<and>
         created w' = created w @ [r] \<and>
         length (req_keys r) = length (req_vals r) \<and>
         zip (req_keys r) (req_vals r) =
           scalar_items kwargs' @ declared_items frame (kwarg_names sg) @
           dtype_items np_dtype (dtype_name sg) frame \<and>
         (\<forall>i<length (req_keys r).
            (req_keys r ! i, req_vals r ! i) =
              (scalar_items kwargs' @ declared_items frame (kwarg_names sg) @
               dtype_items np_dtype (dtype_name sg) frame) ! i)))"
proof (intro conjI impI)
  assume a: "variadic_function np_dtype handle func_name dn key_var_num_args args kwargs w =
               (Inr s, w')"
  from variadic_function_success [OF a] obtain nm kwargs' where
    k: "variadic_kwargs np_dtype dn kwargs w = Inr (nm, kwargs')" and
    w': "w' = w\<lparr>name_counter := snd (name_manager_get (name_counter w) nm (lower func_name)),
                  created := created w @
                    [variadic_request handle key_var_num_args args kwargs'
                       (fst (name_manager_get (name_counter w) nm (lower func_name)))]\<rparr>"
    by blast
  let ?r = "variadic_request handle key_var_num_args args kwargs'
              (fst (name_manager_get (name_counter w) nm (lower func_name)))"
  let ?es = "scalar_items kwargs' @ injected key_var_num_args kwargs' args"
  have ks: "req_keys ?r = map fst ?es" and vs: "req_vals ?r = map snd ?es"
    by (simp_all add: variadic_request_def)
  have z: "zip (req_keys ?r) (req_vals ?r) = ?es"
    unfolding ks vs by (simp add: zip_map_fst_snd)
  have n: "\<forall>i<length (req_keys ?r). (req_keys ?r ! i, req_vals ?r ! i) = ?es ! i"
    unfolding ks vs by (simp del: map_append)
  have "length (req_keys ?r) = length (req_vals ?r)"
    unfolding ks vs by simp
  moreover from w' have "created w' = created w @ [?r]" by simp
  ultimately show "\<exists>nm kwargs' r.
         variadic_kwargs np_dtype dn kwargs w = Inr (nm, kwargs') \<and>
         created w' = created w @ [r] \<and>
         length (req_keys r) = length (req_vals r) \<and>
         zip (req_keys r) (req_vals r) =
           scalar_items kwargs' @ injected key_var_num_args kwargs' args \<and>
         (\<forall>i<length (req_keys r).
            (req_keys r ! i, req_vals r ! i) =
              (scalar_items kwargs' @ injected key_var_num_args kwargs' args) ! i)"
    using k z n by blast
next
  assume a: "keyword_function np_dtype handle func_name sg args kw w = (Inr s, w')"
  from keyword_function_success [OF a] obtain frame kwargs' sym_kwargs where
    fr: "keyword_frame sg args kw w = Inr (frame, kwargs')" and
    w': "w' = w\<lparr>name_counter :=
                    snd (name_manager_get (name_counter w) (local_var frame ''name'')
                           (lower func_name)),
                  created := created w @
                    [keyword_request np_dtype handle sg frame kwargs' sym_kwargs
                       (fst (name_manager_get (name_counter w) (local_var frame ''name'')
                               (lower func_name)))]\<rparr>"
    by blast
  let ?r = "keyword_request np_dtype handle sg frame kwargs' sym_kwargs
              (fst (name_manager_get (name_counter w) (local_var frame ''name'')
                      (lower func_name)))"
  let ?es = "scalar_items kwargs' @ declared_items frame (kwarg_names sg) @
             dtype_items np_dtype (dtype_name sg) frame"
  have ks: "req_keys ?r = map fst ?es" and vs: "req_vals ?r = map snd ?es"
    by (simp_all add: keyword_request_def)
  have z: "zip (req_keys ?r) (req_vals ?r) = ?es"
    unfolding ks vs by (simp add: zip_map_fst_snd)
  have n: "\<forall>i<length (req_keys ?r). (req_keys ?r ! i, req_vals ?r ! i) = ?es ! i"
    unfolding ks vs by (simp del: map_append)
  have "length (req_keys ?r) = length (req_vals ?r)"
    unfolding ks vs by simp
  moreover from w' have "created w' = created w @ [?r]" by simp
  ultimately show "\<exists>frame kwargs' r.
         keyword_frame sg args kw w = Inr (frame, kwargs') \<and>
         created w' = created w @ [r] \<and>
         length (req_keys r) = length (req_vals r) \<and>
         zip (req_keys r) (req_vals r) =
           scalar_items kwargs' @ declared_items frame (kwarg_names sg) @
           dtype_items np_dtype (dtype_name sg) frame \<and>
         (\<forall>i<length (req_keys r).
            (req_keys r ! i, req_vals r ! i) =
              (scalar_items kwargs' @ declared_items frame (kwarg_names sg) @
               dtype_items np_dtype (dtype_name sg) frame) ! i)"
    using fr z n by blast
qed

lemma classify_topk: "classify topk_decl = Inr topk_signature"
  by (simp add: topk_decl_def topk_signature_def classify_def classify_arg_def
        init_signature_def startswith_def endswith_def Let_def)

text \<open>
  C8, at a failing input. The operator declares the scalar parameter \<^verbatim>\<open>k\<close>; the
  call gives \<^verbatim>\<open>data\<close> and \<^verbatim>\<open>k=3\<close> while the scope has the attribute
  \<^verbatim>\<open>ctx_group\<close>. The loop \<^verbatim>\<open>for k, v in kwargs.items()\<close> runs once and leaves
  the key \<^verbatim>\<open>'ctx_group'\<close> in the local variable \<^verbatim>\<open>k\<close>, which is the
  parameter. The statements generated for the parameter then append \<^verbatim>\<open>'k'\<close> to
  \<^verbatim>\<open>keys\<close> and that string to \<^verbatim>\<open>vals\<close>: the two lists have the same length,
  but the value at the index of \<^verbatim>\<open>'k'\<close> is not the value \<^verbatim>\<open>3\<close> given for that
  key. Without the attribute the same call sends \<^verbatim>\<open>3\<close>.
\<close>

theorem loop_target_overwrites_parameter:
  "classify topk_decl = Inr topk_signature \<and>
   keyword_function np_dtype_sample 9 ''topk'' topk_signature []
     [(''data'', SymV 1), (''k'', IntV 3)] scoped_world =
     (Inr (SymV 0),
      \<lparr>attr_scope = [(''ctx_group'', ''dev1'')], name_counter = [(''topk'', 1)],
       created =
         [\<lparr>req_handle = 9, req_sym_args = None, req_sym_kwargs = [(''data'', SymV 1)],
           req_keys = [''ctx_group'', ''k''],
           req_vals = [StrV ''dev1'', StrV ''ctx_group''],
           req_name = StrV ''topk0''\<rparr>]\<rparr>) \<and>
   keyword_function np_dtype_sample 9 ''topk'' topk_signature []
     [(''data'', SymV 1), (''k'', IntV 3)] empty_world =
     (Inr (SymV 0),
      \<lparr>attr_scope = [], name_counter = [(''topk'', 1)],
       created =
         [\<lparr>req_handle = 9, req_sym_args = None, req_sym_kwargs = [(''data'', SymV 1)],
           req_keys = [''k''], req_vals = [IntV 3],
           req_name = StrV ''topk0''\<rparr>]\<rparr>) \<and>
   StrV ''ctx_group'' \<noteq> IntV 3"
  by (simp add: classify_topk) (simp add: run_defs)

section \<open>The keyword mapping of the node-array form\<close>

lemma map_of_remove_key:
  "map_of (filter (\<lambda>kv. fst kv \<noteq> k) d) k' = (if k' = k then None else map_of d k')"
  by (induction d) auto

lemma keyset_remove_key: "fst ` set (filter (\<lambda>kv. fst kv \<noteq> k) d) = fst ` set d - {k}"
  by (induction d) auto

lemma distinct_remove_key:
  "distinct (map fst d) \<Longrightarrow> distinct (map fst (filter (\<lambda>kv. fst kv \<noteq> k) d))"
  by (simp add: distinct_map_filter)

lemma map_of_Some_key: "map_of d k = Some x \<Longrightarrow> k \<in> fst ` set d"
  by (metis map_of_eq_None_iff option.distinct(1))

lemma coerce_dtype_keys:
  assumes "coerce_dtype np_dtype dn kwargs = Inr kwargs1"
  shows "fst ` set kwargs1 = fst ` set kwargs"
proof (cases dn)
  case None
  with assms show ?thesis by (simp add: coerce_dtype_def)
next
  case (Some d)
  show ?thesis
  proof (cases "map_of kwargs d")
    case None
    with Some assms show ?thesis by (simp add: coerce_dtype_def)
  next
    case (Some x)
    then have "d \<in> fst ` set kwargs" by (rule map_of_Some_key)
    then have i: "insert d (fst ` set kwargs) = fst ` set kwargs" by (rule insert_absorb)
    from Some \<open>dn = Some d\<close> assms obtain s where "kwargs1 = dict_set kwargs d (StrV s)"
      by (auto simp: coerce_dtype_def split: option.splits)
    then show ?thesis by (simp only: keyset_dict_set i)
  qed
qed

lemma coerce_dtype_distinct:
  "coerce_dtype np_dtype dn kwargs = Inr kwargs1 \<Longrightarrow> distinct (map fst kwargs) \<Longrightarrow>
   distinct (map fst kwargs1)"
  by (auto simp: coerce_dtype_def distinct_dict_set split: option.splits)

lemma coerce_dtype_other:
  "coerce_dtype np_dtype dn kwargs = Inr kwargs1 \<Longrightarrow> dn \<noteq> Some k \<Longrightarrow>
   map_of kwargs1 k = map_of kwargs k"
  by (auto simp: coerce_dtype_def map_of_dict_set split: option.splits)

lemma attr_scope_get_distinct:
  "attr_scope_get ambient attr = Inr merged \<Longrightarrow> distinct (map fst ambient) \<Longrightarrow>
   distinct (map fst merged)"
  by (auto simp: attr_scope_get_def distinct_dict_update split: pyval.splits)

lemma map_of_str_attrs: "map_of (str_attrs m) k = map_option StrV (map_of m k)"
  by (induction m) (auto simp: str_attrs_def)

lemma keys_str_attrs: "map fst (str_attrs m) = map fst m"
  by (simp add: str_attrs_def comp_def)

lemma map_of_update_attrs:
  assumes "distinct (map fst m)"
  shows "map_of (dict_update d (str_attrs m)) k =
           (case map_of m k of Some a \<Rightarrow> Some (StrV a) | None \<Rightarrow> map_of d k)"
proof -
  from assms have "distinct (map fst (str_attrs m))" by (simp add: keys_str_attrs)
  then have "map_of (rev (str_attrs m)) = map_of (str_attrs m)" by (rule map_of_rev_distinct)
  then show ?thesis
    by (simp add: map_of_dict_update map_of_str_attrs split: option.splits)
qed

lemma variadic_kwargs_Inr:
  assumes "variadic_kwargs np_dtype dn kwargs w = Inr (nm, kwargs')"
  shows "\<exists>kwargs1 merged.
           coerce_dtype np_dtype dn kwargs = Inr kwargs1 \<and>
           variadic_merged np_dtype dn kwargs w = Inr merged \<and>
           kwargs' =
             filter (\<lambda>kv. fst kv \<noteq> ''out'')
               (filter (\<lambda>kv. fst kv \<noteq> ''name'')
                  (dict_update (filter (\<lambda>kv. fst kv \<noteq> ''attr'') kwargs1) (str_attrs merged))) \<and>
           nm = (case map_of (dict_update (filter (\<lambda>kv. fst kv \<noteq> ''attr'') kwargs1)
                                (str_attrs merged)) ''name'' of
                   None \<Rightarrow> NoneV | Some x \<Rightarrow> x)"
  using assms
  by (auto simp: variadic_kwargs_def variadic_merged_def dict_pop_def Let_def split: sum.splits)

lemma variadic_kwargs_keys:
  assumes "variadic_kwargs np_dtype dn kwargs w = Inr (nm, kwargs')"
    and "variadic_merged np_dtype dn kwargs w = Inr merged"
  shows "fst ` set kwargs' =
           ((fst ` set kwargs - {''attr''}) \<union> fst ` set merged) - {''name'', ''out''}"
proof -
  from variadic_kwargs_Inr [OF assms(1)] assms(2) obtain kwargs1 where
    c: "coerce_dtype np_dtype dn kwargs = Inr kwargs1" and
    k: "kwargs' =
             filter (\<lambda>kv. fst kv \<noteq> ''out'')
               (filter (\<lambda>kv. fst kv \<noteq> ''name'')
                  (dict_update (filter (\<lambda>kv. fst kv \<noteq> ''attr'') kwargs1) (str_attrs merged)))"
    by auto
  have "fst ` set (str_attrs merged) = fst ` set merged"
    using keys_str_attrs [of merged] by (metis set_map)
  with k coerce_dtype_keys [OF c] show ?thesis
    by (simp only: keyset_remove_key keyset_dict_update) blast
qed

lemma variadic_kwargs_distinct:
  assumes "variadic_kwargs np_dtype dn kwargs w = Inr (nm, kwargs')"
    and "distinct (map fst kwargs)"
  shows "distinct (map fst kwargs')"
proof -
  from variadic_kwargs_Inr [OF assms(1)] obtain kwargs1 merged where
    c: "coerce_dtype np_dtype dn kwargs = Inr kwargs1" and
    k: "kwargs' =
             filter (\<lambda>kv. fst kv \<noteq> ''out'')
               (filter (\<lambda>kv. fst kv \<noteq> ''name'')
                  (dict_update (filter (\<lambda>kv. fst kv \<noteq> ''attr'') kwargs1) (str_attrs merged)))"
    by auto
  from coerce_dtype_distinct [OF c assms(2)] have "distinct (map fst kwargs1)" .
  then have "distinct (map fst (dict_update (filter (\<lambda>kv. fst kv \<noteq> ''attr'') kwargs1)
                                  (str_attrs merged)))"
    by (intro distinct_dict_update distinct_remove_key)
  then show ?thesis unfolding k by (intro distinct_remove_key)
qed

lemma variadic_kwargs_attr:
  assumes "variadic_kwargs np_dtype dn kwargs w = Inr (nm, kwargs')"
    and "variadic_merged np_dtype dn kwargs w = Inr merged"
    and "distinct (map fst (attr_scope w))"
    and "map_of merged k = Some a"
    and "k \<noteq> ''name''" and "k \<noteq> ''out''"
  shows "map_of kwargs' k = Some (StrV a)"
proof -
  from variadic_kwargs_Inr [OF assms(1)] assms(2) obtain kwargs1 where
    c: "coerce_dtype np_dtype dn kwargs = Inr kwargs1" and
    k: "kwargs' =
             filter (\<lambda>kv. fst kv \<noteq> ''out'')
               (filter (\<lambda>kv. fst kv \<noteq> ''name'')
                  (dict_update (filter (\<lambda>kv. fst kv \<noteq> ''attr'') kwargs1) (str_attrs merged)))"
    by auto
  from assms(2) c have "attr_scope_get (attr_scope w) (fst (dict_pop kwargs1 ''attr'' NoneV)) =
                          Inr merged"
    by (simp add: variadic_merged_def)
  from attr_scope_get_distinct [OF this assms(3)] have d: "distinct (map fst merged)" .
  show ?thesis
    unfolding k using assms(4,5,6)
    by (simp del: filter_filter add: map_of_remove_key map_of_update_attrs [OF d])
qed

lemma variadic_kwargs_caller:
  assumes "variadic_kwargs np_dtype dn kwargs w = Inr (nm, kwargs')"
    and "variadic_merged np_dtype dn kwargs w = Inr merged"
    and "distinct (map fst (attr_scope w))"
    and "map_of kwargs k = Some x"
    and "k \<notin> fst ` set merged"
    and "dn \<noteq> Some k"
    and "k \<noteq> ''attr''" and "k \<noteq> ''name''" and "k \<noteq> ''out''"
  shows "map_of kwargs' k = Some x"
proof -
  from variadic_kwargs_Inr [OF assms(1)] assms(2) obtain kwargs1 where
    c: "coerce_dtype np_dtype dn kwargs = Inr kwargs1" and
    k: "kwargs' =
             filter (\<lambda>kv. fst kv \<noteq> ''out'')
               (filter (\<lambda>kv. fst kv \<noteq> ''name'')
                  (dict_update (filter (\<lambda>kv. fst kv \<noteq> ''attr'') kwargs1) (str_attrs merged)))"
    by auto
  from assms(2) c have "attr_scope_get (attr_scope w) (fst (dict_pop kwargs1 ''attr'' NoneV)) =
                          Inr merged"
    by (simp add: variadic_merged_def)
  from attr_scope_get_distinct [OF this assms(3)] have d: "distinct (map fst merged)" .
  from assms(5) have n: "map_of merged k = None" by (simp add: map_of_eq_None_iff)
  from coerce_dtype_other [OF c assms(6)] assms(4) have "map_of kwargs1 k = Some x" by simp
  then show ?thesis
    unfolding k using assms(7,8,9) n
    by (simp del: filter_filter add: map_of_remove_key map_of_update_attrs [OF d])
qed

lemma filter_key_items:
  assumes "distinct (map fst d)" and "map_of d k = Some x"
  shows "filter (\<lambda>e. fst e = k) (scalar_items d) = (if is_symbol x then [] else [(k, x)])"
    and "filter (\<lambda>e. fst e = k) (node_items d) = (if is_symbol x then [(k, x)] else [])"
proof -
  have "filter (\<lambda>e. fst e = k) (scalar_items d) =
          filter (\<lambda>kv. \<not> is_symbol (snd kv)) (filter (\<lambda>e. fst e = k) d)"
    by (simp add: scalar_items_def conj_commute)
  then show "filter (\<lambda>e. fst e = k) (scalar_items d) = (if is_symbol x then [] else [(k, x)])"
    by (simp add: filter_key_distinct [OF assms])
  have "filter (\<lambda>e. fst e = k) (node_items d) =
          filter (\<lambda>kv. is_symbol (snd kv)) (filter (\<lambda>e. fst e = k) d)"
    by (simp add: node_items_def conj_commute)
  then show "filter (\<lambda>e. fst e = k) (node_items d) = (if is_symbol x then [(k, x)] else [])"
    by (simp add: filter_key_distinct [OF assms])
qed

lemma injected_other_key:
  "dict_contains kwargs k \<or> k \<noteq> key_var_num_args \<Longrightarrow>
   filter (\<lambda>e. fst e = k) (injected key_var_num_args kwargs sym_args) = []"
  by (auto simp: injected_def)

section \<open>The injected count\<close>

lemma dict_contains_keys: "dict_contains d k = (k \<in> fst ` set d)"
  by (simp add: dict_contains_def map_of_eq_None_iff)

lemma filter_key_absent: "k \<notin> fst ` set d \<Longrightarrow> filter (\<lambda>e. fst e = k) d = []"
  by (force simp: filter_empty_conv)

lemma scalar_items_keys: "fst ` set (scalar_items d) \<subseteq> fst ` set d"
  by (auto simp: scalar_items_def)

lemma variadic_merged_exists:
  "variadic_kwargs np_dtype dn kwargs w = Inr (nm, kwargs') \<Longrightarrow>
   \<exists>merged. variadic_merged np_dtype dn kwargs w = Inr merged"
  by (auto dest: variadic_kwargs_Inr)

text \<open>
  C3 (as amended). Let the operator declare a non-empty \<^verbatim>\<open>key_var_num_args\<close> and
  let the call reach the creator. If neither the caller's keywords nor the merged
  attributes have that key, the last entry of \<^verbatim>\<open>keys\<close>/\<^verbatim>\<open>vals\<close> is the key
  with the integer \<^verbatim>\<open>len(sym_args) + len(sym_kwargs)\<close>, and it is the only entry
  with that key. If the caller supplies the key (and it is not \<^verbatim>\<open>attr\<close>,
  \<^verbatim>\<open>name\<close>, \<^verbatim>\<open>out\<close> or the coerced \<^verbatim>\<open>dtype\<close>, and no merged attribute
  has it), nothing is injected: a scalar value is the only entry with that key,
  unchanged, and a node value is a keyword node.
\<close>

theorem key_variadic_injection:
  assumes "variadic_function np_dtype handle func_name dn key_var_num_args args kwargs w =
             (Inr s, w')"
    and "key_var_num_args \<noteq> []"
    and "distinct (map fst kwargs)" and "distinct (map fst (attr_scope w))"
  shows "\<exists>merged r.
           variadic_merged np_dtype dn kwargs w = Inr merged \<and>
           created w' = created w @ [r] \<and>
           req_sym_args r = Some args \<and>
           (key_var_num_args \<notin> fst ` set kwargs \<and> key_var_num_args \<notin> fst ` set merged \<longrightarrow>
              req_keys r \<noteq> [] \<and> last (req_keys r) = key_var_num_args \<and>
              last (req_vals r) = IntV (int (length args + length (req_sym_kwargs r))) \<and>
              filter (\<lambda>e. fst e = key_var_num_args) (zip (req_keys r) (req_vals r)) =
                [(key_var_num_args, IntV (int (length args + length (req_sym_kwargs r))))]) \<and>
           (\<forall>x. map_of kwargs key_var_num_args = Some x \<and>
                key_var_num_args \<notin> fst ` set merged \<and> dn \<noteq> Some key_var_num_args \<and>
                key_var_num_args \<notin> {''attr'', ''name'', ''out''} \<longrightarrow>
                (if is_symbol x then
                   key_var_num_args \<notin> set (req_keys r) \<and>
                   (key_var_num_args, x) \<in> set (req_sym_kwargs r)
                 else
                   filter (\<lambda>e. fst e = key_var_num_args) (zip (req_keys r) (req_vals r)) =
                     [(key_var_num_args, x)]))"
proof -
  from variadic_function_success [OF assms(1)] obtain nm kwargs' where
    k: "variadic_kwargs np_dtype dn kwargs w = Inr (nm, kwargs')" and
    w': "w' = w\<lparr>name_counter := snd (name_manager_get (name_counter w) nm (lower func_name)),
                  created := created w @
                    [variadic_request handle key_var_num_args args kwargs'
                       (fst (name_manager_get (name_counter w) nm (lower func_name)))]\<rparr>"
    by blast
  from variadic_merged_exists [OF k] obtain merged where
    m: "variadic_merged np_dtype dn kwargs w = Inr merged" by blast
  let ?r = "variadic_request handle key_var_num_args args kwargs'
              (fst (name_manager_get (name_counter w) nm (lower func_name)))"
  let ?es = "scalar_items kwargs' @ injected key_var_num_args kwargs' args"
  let ?n = "IntV (int (length args + length (req_sym_kwargs ?r)))"
  have z: "zip (req_keys ?r) (req_vals ?r) = ?es"
    by (simp add: variadic_request_def zip_map_fst_snd del: map_append)
  have ks: "req_keys ?r = map fst ?es" and vs: "req_vals ?r = map snd ?es"
    by (simp_all add: variadic_request_def)
  have sk: "req_sym_kwargs ?r = dict_update [] (node_items kwargs')"
    by (simp add: variadic_request_def)
  from variadic_kwargs_distinct [OF k assms(3)] have dk: "distinct (map fst kwargs')" .
  have 1: "req_keys ?r \<noteq> [] \<and> last (req_keys ?r) = key_var_num_args \<and>
           last (req_vals ?r) = ?n \<and>
           filter (\<lambda>e. fst e = key_var_num_args) (zip (req_keys ?r) (req_vals ?r)) =
             [(key_var_num_args, ?n)]"
    if a: "key_var_num_args \<notin> fst ` set kwargs \<and> key_var_num_args \<notin> fst ` set merged"
  proof -
    from a variadic_kwargs_keys [OF k m] have nk: "key_var_num_args \<notin> fst ` set kwargs'"
      by blast
    with assms(2) have i: "injected key_var_num_args kwargs' args = [(key_var_num_args, ?n)]"
      by (simp add: injected_def dict_contains_keys sk)
    from nk scalar_items_keys [of kwargs'] have
      "key_var_num_args \<notin> fst ` set (scalar_items kwargs')" by blast
    then have f: "filter (\<lambda>e. fst e = key_var_num_args) (scalar_items kwargs') = []"
      by (rule filter_key_absent)
    show ?thesis
      unfolding z unfolding ks vs i using f by simp
  qed
  have 2: "if is_symbol x then
             key_var_num_args \<notin> set (req_keys ?r) \<and>
             (key_var_num_args, x) \<in> set (req_sym_kwargs ?r)
           else
             filter (\<lambda>e. fst e = key_var_num_args) (zip (req_keys ?r) (req_vals ?r)) =
               [(key_var_num_args, x)]"
    if a: "map_of kwargs key_var_num_args = Some x \<and>
           key_var_num_args \<notin> fst ` set merged \<and> dn \<noteq> Some key_var_num_args \<and>
           key_var_num_args \<notin> {''attr'', ''name'', ''out''}" for x
  proof -
    from a have "map_of kwargs' key_var_num_args = Some x"
      by (intro variadic_kwargs_caller [OF k m assms(4)]) auto
    note mk = this
    then have c: "dict_contains kwargs' key_var_num_args" by (simp add: dict_contains_def)
    then have i: "injected key_var_num_args kwargs' args = []" by (simp add: injected_def)
    note f = filter_key_items [OF dk mk]
    show ?thesis
    proof (cases "is_symbol x")
      case True
      with f(1) have "filter (\<lambda>e. fst e = key_var_num_args) (scalar_items kwargs') = []"
        by simp
      then have "key_var_num_args \<notin> fst ` set (scalar_items kwargs')"
        by (auto simp: filter_empty_conv)
      then have "key_var_num_args \<notin> set (req_keys ?r)"
        unfolding ks i by simp
      moreover from True f(2) have
        "(key_var_num_args, x) \<in> set (filter (\<lambda>e. fst e = key_var_num_args) (node_items kwargs'))"
        by simp
      then have "(key_var_num_args, x) \<in> set (node_items kwargs')"
        by simp
      then have "(key_var_num_args, x) \<in> set (req_sym_kwargs ?r)"
        by (simp add: sk node_items_dict [OF dk])
      ultimately show ?thesis using True by simp
    next
      case False
      with f(1) show ?thesis unfolding z i by simp
    qed
  qed
  from w' have "created w' = created w @ [?r]" by simp
  moreover have "req_sym_args ?r = Some args" by (simp add: variadic_request_def)
  ultimately show ?thesis using m 1 2 by blast
qed

theorem key_variadic_injection_witness:
  "variadic_function np_dtype_sample 3 ''Concat'' None ''num_args'' [SymV 1, SymV 2]
     [(''dim'', IntV 1)] empty_world =
     (Inr (SymV 0),
      \<lparr>attr_scope = [], name_counter = [(''concat'', 1)],
       created =
         [\<lparr>req_handle = 3, req_sym_args = Some [SymV 1, SymV 2], req_sym_kwargs = [],
           req_keys = [''dim'', ''num_args''], req_vals = [IntV 1, IntV 2],
           req_name = StrV ''concat0''\<rparr>]\<rparr>) \<and>
   (\<exists>r. created (snd (variadic_function np_dtype_sample 3 ''Concat'' None ''num_args''
                       [SymV 1, SymV 2] [(''dim'', IntV 1)] empty_world)) =
          created empty_world @ [r] \<and>
        last (req_keys r) = ''num_args'' \<and>
        last (req_vals r) = IntV (int (length [SymV 1, SymV 2] + length (req_sym_kwargs r))))"
proof -
  have h: "variadic_function np_dtype_sample 3 ''Concat'' None ''num_args'' [SymV 1, SymV 2]
     [(''dim'', IntV 1)] empty_world =
     (Inr (SymV 0),
      \<lparr>attr_scope = [], name_counter = [(''concat'', 1)],
       created =
         [\<lparr>req_handle = 3, req_sym_args = Some [SymV 1, SymV 2], req_sym_kwargs = [],
           req_keys = [''dim'', ''num_args''], req_vals = [IntV 1, IntV 2],
           req_name = StrV ''concat0''\<rparr>]\<rparr>)"
    by (simp add: run_defs)
  have n: "''num_args'' \<noteq> []" by simp
  have d1: "distinct (map fst [(''dim'', IntV 1)])" by simp
  have d2: "distinct (map fst (attr_scope empty_world))" by (simp add: empty_world_def)
  from key_variadic_injection [OF h n d1 d2] obtain merged r where
    m: "variadic_merged np_dtype_sample None [(''dim'', IntV 1)] empty_world = Inr merged" and
    c: "created \<lparr>attr_scope = [], name_counter = [(''concat'', 1)],
       created =
         [\<lparr>req_handle = 3, req_sym_args = Some [SymV 1, SymV 2], req_sym_kwargs = [],
           req_keys = [''dim'', ''num_args''], req_vals = [IntV 1, IntV 2],
           req_name = StrV ''concat0''\<rparr>]\<rparr> = created empty_world @ [r]" and
    i: "''num_args'' \<notin> fst ` set [(''dim'', IntV 1)] \<and> ''num_args'' \<notin> fst ` set merged \<longrightarrow>
          last (req_keys r) = ''num_args'' \<and>
          last (req_vals r) = IntV (int (length [SymV 1, SymV 2] + length (req_sym_kwargs r)))"
    by blast
  from m have "merged = []"
    by (simp add: variadic_merged_def run_defs)
  with i have "last (req_keys r) = ''num_args'' \<and>
          last (req_vals r) = IntV (int (length [SymV 1, SymV 2] + length (req_sym_kwargs r)))"
    by simp
  with c h show ?thesis by auto
qed

text \<open>
  C3 as stated fails twice. With the attribute \<^verbatim>\<open>num_args\<close> in the active scope and
  no such keyword from the caller, no count is appended: the attribute is forwarded.
  And the count that is appended is the integer, not its decimal string.
\<close>

theorem key_variadic_injection_counterexample:
  "variadic_function np_dtype_sample 3 ''Concat'' None ''num_args'' [SymV 1, SymV 2] []
     \<lparr>attr_scope = [(''num_args'', ''5'')], name_counter = [], created = []\<rparr> =
     (Inr (SymV 0),
      \<lparr>attr_scope = [(''num_args'', ''5'')], name_counter = [(''concat'', 1)],
       created =
         [\<lparr>req_handle = 3, req_sym_args = Some [SymV 1, SymV 2], req_sym_kwargs = [],
           req_keys = [''num_args''], req_vals = [StrV ''5''],
           req_name = StrV ''concat0''\<rparr>]\<rparr>) \<and>
   variadic_function np_dtype_sample 3 ''Concat'' None ''num_args'' [SymV 1, SymV 2] []
     empty_world =
     (Inr (SymV 0),
      \<lparr>attr_scope = [], name_counter = [(''concat'', 1)],
       created =
         [\<lparr>req_handle = 3, req_sym_args = Some [SymV 1, SymV 2], req_sym_kwargs = [],
           req_keys = [''num_args''], req_vals = [IntV 2],
           req_name = StrV ''concat0''\<rparr>]\<rparr>) \<and>
   IntV 2 \<noteq> StrV ''2''"
  by (simp add: run_defs)

section \<open>An attribute named like the count\<close>

text \<open>
  C9 (as amended). In the node-array form, let the merged attributes have the key
  \<^verbatim>\<open>key_var_num_args\<close>, and let that key be neither \<^verbatim>\<open>name\<close> nor
  \<^verbatim>\<open>out\<close> (the two keywords removed from the mapping after the merge). When the
  call reaches the creator no count is injected, \<^verbatim>\<open>keys\<close> and \<^verbatim>\<open>vals\<close> are
  the non-node items of the keyword mapping alone, and the only entry with that key
  carries the value of the attribute.
\<close>

theorem attribute_suppresses_injection:
  assumes "variadic_function np_dtype handle func_name dn key_var_num_args args kwargs w =
             (Inr s, w')"
    and "distinct (map fst kwargs)" and "distinct (map fst (attr_scope w))"
    and "variadic_merged np_dtype dn kwargs w = Inr merged"
    and "map_of merged key_var_num_args = Some a"
    and "key_var_num_args \<noteq> ''name''" and "key_var_num_args \<noteq> ''out''"
  shows "\<exists>nm kwargs' r.
           variadic_kwargs np_dtype dn kwargs w = Inr (nm, kwargs') \<and>
           created w' = created w @ [r] \<and>
           req_keys r = map fst (scalar_items kwargs') \<and>
           req_vals r = map snd (scalar_items kwargs') \<and>
           filter (\<lambda>e. fst e = key_var_num_args) (zip (req_keys r) (req_vals r)) =
             [(key_var_num_args, StrV a)]"
proof -
  from variadic_function_success [OF assms(1)] obtain nm kwargs' where
    k: "variadic_kwargs np_dtype dn kwargs w = Inr (nm, kwargs')" and
    w': "w' = w\<lparr>name_counter := snd (name_manager_get (name_counter w) nm (lower func_name)),
                  created := created w @
                    [variadic_request handle key_var_num_args args kwargs'
                       (fst (name_manager_get (name_counter w) nm (lower func_name)))]\<rparr>"
    by blast
  let ?r = "variadic_request handle key_var_num_args args kwargs'
              (fst (name_manager_get (name_counter w) nm (lower func_name)))"
  from variadic_kwargs_attr [OF k assms(4) assms(3) assms(5) assms(6) assms(7)]
  have mk: "map_of kwargs' key_var_num_args = Some (StrV a)" .
  then have "dict_contains kwargs' key_var_num_args" by (simp add: dict_contains_def)
  then have i: "injected key_var_num_args kwargs' args = []" by (simp add: injected_def)
  from variadic_kwargs_distinct [OF k assms(2)] have dk: "distinct (map fst kwargs')" .
  have ks: "req_keys ?r = map fst (scalar_items kwargs')"
    and vs: "req_vals ?r = map snd (scalar_items kwargs')"
    by (simp_all add: variadic_request_def i)
  have "zip (req_keys ?r) (req_vals ?r) = scalar_items kwargs'"
    unfolding ks vs by (simp add: zip_map_fst_snd)
  with filter_key_items(1) [OF dk mk] have
    "filter (\<lambda>e. fst e = key_var_num_args) (zip (req_keys ?r) (req_vals ?r)) =
       [(key_var_num_args, StrV a)]"
    by simp
  moreover from w' have "created w' = created w @ [?r]" by simp
  ultimately show ?thesis using k ks vs by blast
qed

theorem attribute_suppresses_injection_witness:
  "variadic_function np_dtype_sample 3 ''Concat'' None ''num_args'' [SymV 1, SymV 2] []
     \<lparr>attr_scope = [(''num_args'', ''5'')], name_counter = [], created = []\<rparr> =
     (Inr (SymV 0),
      \<lparr>attr_scope = [(''num_args'', ''5'')], name_counter = [(''concat'', 1)],
       created =
         [\<lparr>req_handle = 3, req_sym_args = Some [SymV 1, SymV 2], req_sym_kwargs = [],
           req_keys = [''num_args''], req_vals = [StrV ''5''],
           req_name = StrV ''concat0''\<rparr>]\<rparr>) \<and>
   (\<exists>r. created (snd (variadic_function np_dtype_sample 3 ''Concat'' None ''num_args''
                       [SymV 1, SymV 2] []
                       \<lparr>attr_scope = [(''num_args'', ''5'')], name_counter = [],
                         created = []\<rparr>)) = [r] \<and>
        filter (\<lambda>e. fst e = ''num_args'') (zip (req_keys r) (req_vals r)) =
          [(''num_args'', StrV ''5'')])"
proof -
  let ?w = "\<lparr>attr_scope = [(''num_args'', ''5'')], name_counter = [], created = []\<rparr>"
  have h: "variadic_function np_dtype_sample 3 ''Concat'' None ''num_args'' [SymV 1, SymV 2] []
     ?w =
     (Inr (SymV 0),
      \<lparr>attr_scope = [(''num_args'', ''5'')], name_counter = [(''concat'', 1)],
       created =
         [\<lparr>req_handle = 3, req_sym_args = Some [SymV 1, SymV 2], req_sym_kwargs = [],
           req_keys = [''num_args''], req_vals = [StrV ''5''],
           req_name = StrV ''concat0''\<rparr>]\<rparr>)"
    by (simp add: run_defs)
  have d1: "distinct (map fst ([] :: pyval pydict))" by simp
  have d2: "distinct (map fst (attr_scope ?w))" by simp
  have m: "variadic_merged np_dtype_sample None [] ?w = Inr [(''num_args'', ''5'')]"
    by (simp add: variadic_merged_def run_defs)
  have a: "map_of [(''num_args'', ''5'')] ''num_args'' = Some ''5''" by simp
  have n1: "''num_args'' \<noteq> ''name''" and n2: "''num_args'' \<noteq> ''out''" by simp_all
  from attribute_suppresses_injection [OF h d1 d2 m a n1 n2] obtain r where
    "created \<lparr>attr_scope = [(''num_args'', ''5'')], name_counter = [(''concat'', 1)],
       created =
         [\<lparr>req_handle = 3, req_sym_args = Some [SymV 1, SymV 2], req_sym_kwargs = [],
           req_keys = [''num_args''], req_vals = [StrV ''5''],
           req_name = StrV ''concat0''\<rparr>]\<rparr> = created ?w @ [r]"
    "filter (\<lambda>e. fst e = ''num_args'') (zip (req_keys r) (req_vals r)) =
          [(''num_args'', StrV ''5'')]"
    by blast
  with h show ?thesis by auto
qed

text \<open>
  C9 as stated fails when the key is one of the keywords that the function consumes:
  with \<^verbatim>\<open>key_var_num_args = 'out'\<close> and the attribute \<^verbatim>\<open>out\<close> in the active
  scope, the attribute is dropped and the count is injected.
\<close>

theorem attribute_suppresses_injection_counterexample:
  "variadic_function np_dtype_sample 3 ''Concat'' None ''out'' [SymV 1, SymV 2] []
     \<lparr>attr_scope = [(''out'', ''x'')], name_counter = [], created = []\<rparr> =
     (Inr (SymV 0),
      \<lparr>attr_scope = [(''out'', ''x'')], name_counter = [(''concat'', 1)],
       created =
         [\<lparr>req_handle = 3, req_sym_args = Some [SymV 1, SymV 2], req_sym_kwargs = [],
           req_keys = [''out''], req_vals = [IntV 2],
           req_name = StrV ''concat0''\<rparr>]\<rparr>)"
  by (simp add: run_defs)

section \<open>Attributes in the keyword mapping\<close>

lemma keyword_frame_Inr:
  assumes "keyword_frame sg args kw w = Inr (frame, kwargs)"
  shows "\<exists>frame0 kwargs0 merged.
           bind_args (signature sg) args kw = Inr (frame0, kwargs0) \<and>
           keyword_merged sg args kw w = Inr merged \<and>
           kwargs0 = filter (\<lambda>kv. fst kv \<notin> param_names sg) kw \<and>
           kwargs = dict_update kwargs0 (str_attrs merged) \<and>
           frame = loop_targets kwargs frame0"
  using assms
  by (auto simp: keyword_frame_def keyword_merged_def bind_args_def param_names_def Let_def
        split: sum.splits prod.splits if_splits)

lemma keyword_frame_distinct:
  assumes "keyword_frame sg args kw w = Inr (frame, kwargs)" and "distinct (map fst kw)"
  shows "distinct (map fst kwargs)"
proof -
  from keyword_frame_Inr [OF assms(1)] obtain merged where
    "kwargs = dict_update (filter (\<lambda>kv. fst kv \<notin> param_names sg) kw) (str_attrs merged)"
    by blast
  moreover from assms(2) have "distinct (map fst (filter (\<lambda>kv. fst kv \<notin> param_names sg) kw))"
    by (simp add: distinct_map_filter)
  ultimately show ?thesis by (simp add: distinct_dict_update)
qed

lemma keyword_frame_attr:
  assumes "keyword_frame sg args kw w = Inr (frame, kwargs)"
    and "keyword_merged sg args kw w = Inr merged"
    and "distinct (map fst (attr_scope w))"
    and "map_of merged k = Some a"
  shows "map_of kwargs k = Some (StrV a)"
proof -
  from keyword_frame_Inr [OF assms(1)] assms(2) obtain frame0 kwargs0 where
    b: "bind_args (signature sg) args kw = Inr (frame0, kwargs0)" and
    k: "kwargs = dict_update kwargs0 (str_attrs merged)"
    by auto
  from assms(2) b have "attr_scope_get (attr_scope w) (local_var frame0 ''attr'') = Inr merged"
    by (simp add: keyword_merged_def)
  from attr_scope_get_distinct [OF this assms(3)] have d: "distinct (map fst merged)" .
  show ?thesis unfolding k using assms(4) by (simp add: map_of_update_attrs [OF d])
qed

lemma keyword_merged_exists:
  "keyword_frame sg args kw w = Inr (frame, kwargs) \<Longrightarrow>
   \<exists>merged. keyword_merged sg args kw w = Inr merged"
  by (auto dest: keyword_frame_Inr)

lemma explicit_attr_wins:
  assumes "distinct (map fst d)"
  shows "attr_scope_get ambient (DictV d) = Inr (dict_update ambient d) \<and>
         map_of (dict_update ambient d) k =
           (case map_of d k of Some x \<Rightarrow> Some x | None \<Rightarrow> map_of ambient k)"
  using map_of_rev_distinct [OF assms]
  by (simp add: attr_scope_get_def map_of_dict_update)

text \<open>
  C4 (as amended). The merged attributes are the active scope updated with the explicit
  \<^verbatim>\<open>attr\<close> mapping, the explicit value winning on a common key. They are stored
  into the keyword mapping by \<^verbatim>\<open>kwargs.update\<close> before the mapping is
  partitioned, whether or not the caller gave a keyword of the same name. So, when the
  call reaches the creator, every merged attribute \<open>k = a\<close> is forwarded: among the
  entries that the keyword mapping contributes to \<^verbatim>\<open>keys\<close>/\<^verbatim>\<open>vals\<close> exactly
  one has the key \<open>k\<close>, and its value is \<open>a\<close> (in the node-array form for every
  \<open>k\<close> other than \<^verbatim>\<open>name\<close> and \<^verbatim>\<open>out\<close>, and there it is the only entry of
  the request with that key).
\<close>

theorem attributes_folded:
  "(distinct (map fst d) \<longrightarrow>
      attr_scope_get ambient (DictV d) = Inr (dict_update ambient d) \<and>
      map_of (dict_update ambient d) k =
        (case map_of d k of Some x \<Rightarrow> Some x | None \<Rightarrow> map_of ambient k)) \<and>
   (variadic_function np_dtype handle func_name dn key_var_num_args args kwargs w = (Inr s, w') \<and>
    distinct (map fst kwargs) \<and> distinct (map fst (attr_scope w)) \<and>
    variadic_merged np_dtype dn kwargs w = Inr merged \<and> map_of merged k = Some a \<and>
    k \<noteq> ''name'' \<and> k \<noteq> ''out'' \<longrightarrow>
      (\<exists>r. created w' = created w @ [r] \<and>
           filter (\<lambda>e. fst e = k) (zip (req_keys r) (req_vals r)) = [(k, StrV a)])) \<and>
   (keyword_function np_dtype handle func_name sg args kw w = (Inr s, w') \<and>
    distinct (map fst kw) \<and> distinct (map fst (attr_scope w)) \<and>
    keyword_merged sg args kw w = Inr merged \<and> map_of merged k = Some a \<longrightarrow>
      (\<exists>frame kwargs' r.
          keyword_frame sg args kw w = Inr (frame, kwargs') \<and>
          created w' = created w @ [r] \<and>
          zip (req_keys r) (req_vals r) =
            scalar_items kwargs' @ declared_items frame (kwarg_names sg) @
            dtype_items np_dtype (dtype_name sg) frame \<and>
          filter (\<lambda>e. fst e = k) (scalar_items kwargs') = [(k, StrV a)]))"
proof -
  have p1: "distinct (map fst d) \<longrightarrow>
      attr_scope_get ambient (DictV d) = Inr (dict_update ambient d) \<and>
      map_of (dict_update ambient d) k =
        (case map_of d k of Some x \<Rightarrow> Some x | None \<Rightarrow> map_of ambient k)"
  proof (rule impI)
    assume "distinct (map fst d)"
    then show "attr_scope_get ambient (DictV d) = Inr (dict_update ambient d) \<and>
        map_of (dict_update ambient d) k =
          (case map_of d k of Some x \<Rightarrow> Some x | None \<Rightarrow> map_of ambient k)"
      by (rule explicit_attr_wins)
  qed
  have p2: "variadic_function np_dtype handle func_name dn key_var_num_args args kwargs w = (Inr s, w') \<and>
    distinct (map fst kwargs) \<and> distinct (map fst (attr_scope w)) \<and>
    variadic_merged np_dtype dn kwargs w = Inr merged \<and> map_of merged k = Some a \<and>
    k \<noteq> ''name'' \<and> k \<noteq> ''out'' \<longrightarrow>
      (\<exists>r. created w' = created w @ [r] \<and>
           filter (\<lambda>e. fst e = k) (zip (req_keys r) (req_vals r)) = [(k, StrV a)])"
  proof (rule impI)
    assume a: "variadic_function np_dtype handle func_name dn key_var_num_args args kwargs w =
                 (Inr s, w') \<and>
      distinct (map fst kwargs) \<and> distinct (map fst (attr_scope w)) \<and>
      variadic_merged np_dtype dn kwargs w = Inr merged \<and> map_of merged k = Some a \<and>
      k \<noteq> ''name'' \<and> k \<noteq> ''out''"
    then have call: "variadic_function np_dtype handle func_name dn key_var_num_args args kwargs w =
                 (Inr s, w')" by blast
    from variadic_function_success [OF call] obtain nm kwargs' where
      kk: "variadic_kwargs np_dtype dn kwargs w = Inr (nm, kwargs')" and
      w': "w' = w\<lparr>name_counter := snd (name_manager_get (name_counter w) nm (lower func_name)),
                    created := created w @
                      [variadic_request handle key_var_num_args args kwargs'
                         (fst (name_manager_get (name_counter w) nm (lower func_name)))]\<rparr>"
      by blast
    let ?r = "variadic_request handle key_var_num_args args kwargs'
                (fst (name_manager_get (name_counter w) nm (lower func_name)))"
    from a have mk: "map_of kwargs' k = Some (StrV a)"
      by (intro variadic_kwargs_attr [OF kk]) auto
    from a have dk: "distinct (map fst kwargs')"
      by (intro variadic_kwargs_distinct [OF kk]) auto
    from mk have "dict_contains kwargs' k" by (simp add: dict_contains_def)
    then have i: "filter (\<lambda>e. fst e = k) (injected key_var_num_args kwargs' args) = []"
      by (intro injected_other_key) simp
    have "zip (req_keys ?r) (req_vals ?r) =
            scalar_items kwargs' @ injected key_var_num_args kwargs' args"
      by (simp add: variadic_request_def zip_map_fst_snd del: map_append)
    with filter_key_items(1) [OF dk mk] i have
      "filter (\<lambda>e. fst e = k) (zip (req_keys ?r) (req_vals ?r)) = [(k, StrV a)]"
      by simp
    moreover from w' have "created w' = created w @ [?r]" by simp
    ultimately show "\<exists>r. created w' = created w @ [r] \<and>
             filter (\<lambda>e. fst e = k) (zip (req_keys r) (req_vals r)) = [(k, StrV a)]"
      by blast
  qed
  have p3: "keyword_function np_dtype handle func_name sg args kw w = (Inr s, w') \<and>
    distinct (map fst kw) \<and> distinct (map fst (attr_scope w)) \<and>
    keyword_merged sg args kw w = Inr merged \<and> map_of merged k = Some a \<longrightarrow>
      (\<exists>frame kwargs' r.
          keyword_frame sg args kw w = Inr (frame, kwargs') \<and>
          created w' = created w @ [r] \<and>
          zip (req_keys r) (req_vals r) =
            scalar_items kwargs' @ declared_items frame (kwarg_names sg) @
            dtype_items np_dtype (dtype_name sg) frame \<and>
          filter (\<lambda>e. fst e = k) (scalar_items kwargs') = [(k, StrV a)])"
  proof (rule impI)
    assume a: "keyword_function np_dtype handle func_name sg args kw w = (Inr s, w') \<and>
      distinct (map fst kw) \<and> distinct (map fst (attr_scope w)) \<and>
      keyword_merged sg args kw w = Inr merged \<and> map_of merged k = Some a"
    then have call: "keyword_function np_dtype handle func_name sg args kw w = (Inr s, w')"
      by blast
    from keyword_function_success [OF call] obtain frame kwargs' sym_kwargs where
      fr: "keyword_frame sg args kw w = Inr (frame, kwargs')" and
      w': "w' = w\<lparr>name_counter :=
                      snd (name_manager_get (name_counter w) (local_var frame ''name'')
                             (lower func_name)),
                    created := created w @
                      [keyword_request np_dtype handle sg frame kwargs' sym_kwargs
                         (fst (name_manager_get (name_counter w) (local_var frame ''name'')
                                 (lower func_name)))]\<rparr>"
      by blast
    let ?r = "keyword_request np_dtype handle sg frame kwargs' sym_kwargs
                (fst (name_manager_get (name_counter w) (local_var frame ''name'')
                        (lower func_name)))"
    from a have mk: "map_of kwargs' k = Some (StrV a)"
      by (intro keyword_frame_attr [OF fr]) auto
    from a have dk: "distinct (map fst kwargs')"
      by (intro keyword_frame_distinct [OF fr]) auto
    have "zip (req_keys ?r) (req_vals ?r) =
            scalar_items kwargs' @ declared_items frame (kwarg_names sg) @
            dtype_items np_dtype (dtype_name sg) frame"
      by (simp add: keyword_request_def zip_map_fst_snd del: map_append)
    moreover from filter_key_items(1) [OF dk mk] have
      "filter (\<lambda>e. fst e = k) (scalar_items kwargs') = [(k, StrV a)]" by simp
    moreover from w' have "created w' = created w @ [?r]" by simp
    ultimately show "\<exists>frame kwargs' r.
            keyword_frame sg args kw w = Inr (frame, kwargs') \<and>
            created w' = created w @ [r] \<and>
            zip (req_keys r) (req_vals r) =
              scalar_items kwargs' @ declared_items frame (kwarg_names sg) @
              dtype_items np_dtype (dtype_name sg) frame \<and>
            filter (\<lambda>e. fst e = k) (scalar_items kwargs') = [(k, StrV a)]"
      using fr by blast
  qed
  from p1 p2 p3 show ?thesis by blast
qed

theorem attributes_folded_witness:
  "attr_scope_get [(''ctx'', ''gpu'')] (DictV [(''ctx'', ''cpu'')]) = Inr [(''ctx'', ''cpu'')] \<and>
   variadic_function np_dtype_sample 3 ''Concat'' None ''num_args'' [SymV 1, SymV 2]
     [(''attr'', DictV [(''ctx'', ''cpu'')])]
     \<lparr>attr_scope = [(''ctx'', ''gpu'')], name_counter = [], created = []\<rparr> =
     (Inr (SymV 0),
      \<lparr>attr_scope = [(''ctx'', ''gpu'')], name_counter = [(''concat'', 1)],
       created =
         [\<lparr>req_handle = 3, req_sym_args = Some [SymV 1, SymV 2], req_sym_kwargs = [],
           req_keys = [''ctx'', ''num_args''], req_vals = [StrV ''cpu'', IntV 2],
           req_name = StrV ''concat0''\<rparr>]\<rparr>) \<and>
   (\<exists>r. created (snd (variadic_function np_dtype_sample 3 ''Concat'' None ''num_args''
                       [SymV 1, SymV 2] [(''attr'', DictV [(''ctx'', ''cpu'')])]
                       \<lparr>attr_scope = [(''ctx'', ''gpu'')], name_counter = [],
                         created = []\<rparr>)) = [r] \<and>
        filter (\<lambda>e. fst e = ''ctx'') (zip (req_keys r) (req_vals r)) = [(''ctx'', StrV ''cpu'')]) \<and>
   (\<exists>frame kwargs' r.
      keyword_frame sample_signature [SymV 1] [(''axis'', IntV 0)] scoped_world =
        Inr (frame, kwargs') \<and>
      created (snd (keyword_function np_dtype_sample 7 ''Cast'' sample_signature [SymV 1]
                      [(''axis'', IntV 0)] scoped_world)) = [r] \<and>
      filter (\<lambda>e. fst e = ''ctx_group'') (scalar_items kwargs') =
        [(''ctx_group'', StrV ''dev1'')])"
proof -
  let ?w = "\<lparr>attr_scope = [(''ctx'', ''gpu'')], name_counter = [], created = []\<rparr>"
  let ?w' = "\<lparr>attr_scope = [(''ctx'', ''gpu'')], name_counter = [(''concat'', 1)],
       created =
         [\<lparr>req_handle = 3, req_sym_args = Some [SymV 1, SymV 2], req_sym_kwargs = [],
           req_keys = [''ctx'', ''num_args''], req_vals = [StrV ''cpu'', IntV 2],
           req_name = StrV ''concat0''\<rparr>]\<rparr>"
  note thm1 = attributes_folded
    [where d = "[(''ctx'', ''cpu'')]" and ambient = "[(''ctx'', ''gpu'')]" and k = "''ctx''" and
       np_dtype = np_dtype_sample and handle = 3 and func_name = "''Concat''" and
       dn = None and key_var_num_args = "''num_args''" and args = "[SymV 1, SymV 2]" and
       kwargs = "[(''attr'', DictV [(''ctx'', ''cpu'')])]" and w = ?w and s = "SymV 0" and
       w' = ?w' and merged = "[(''ctx'', ''cpu'')]" and a = "''cpu''"]
  have h: "variadic_function np_dtype_sample 3 ''Concat'' None ''num_args'' [SymV 1, SymV 2]
     [(''attr'', DictV [(''ctx'', ''cpu'')])] ?w = (Inr (SymV 0), ?w')"
    by (simp add: run_defs)
  have m: "variadic_merged np_dtype_sample None [(''attr'', DictV [(''ctx'', ''cpu'')])] ?w =
             Inr [(''ctx'', ''cpu'')]"
    by (simp add: variadic_merged_def run_defs)
  have e: "attr_scope_get [(''ctx'', ''gpu'')] (DictV [(''ctx'', ''cpu'')]) =
             Inr [(''ctx'', ''cpu'')]"
    using thm1 by simp
  from thm1 h m have
    "\<exists>r. created ?w' = created ?w @ [r] \<and>
         filter (\<lambda>e. fst e = ''ctx'') (zip (req_keys r) (req_vals r)) = [(''ctx'', StrV ''cpu'')]"
    by simp
  with h have v: "\<exists>r. created (snd (variadic_function np_dtype_sample 3 ''Concat'' None
                       ''num_args'' [SymV 1, SymV 2] [(''attr'', DictV [(''ctx'', ''cpu'')])]
                       ?w)) = [r] \<and>
        filter (\<lambda>e. fst e = ''ctx'') (zip (req_keys r) (req_vals r)) = [(''ctx'', StrV ''cpu'')]"
    by simp
  let ?u = "\<lparr>attr_scope = [(''ctx_group'', ''dev1'')], name_counter = [(''cast'', 1)],
       created =
         [\<lparr>req_handle = 7, req_sym_args = None, req_sym_kwargs = [(''data'', SymV 1)],
           req_keys = [''ctx_group'', ''axis''], req_vals = [StrV ''dev1'', IntV 0],
           req_name = StrV ''cast0''\<rparr>]\<rparr>"
  have h2: "keyword_function np_dtype_sample 7 ''Cast'' sample_signature [SymV 1]
              [(''axis'', IntV 0)] scoped_world = (Inr (SymV 0), ?u)"
    by (simp add: run_defs)
  have m2: "keyword_merged sample_signature [SymV 1] [(''axis'', IntV 0)] scoped_world =
              Inr [(''ctx_group'', ''dev1'')]"
    by (simp add: keyword_merged_def run_defs)
  note thm2 = attributes_folded
    [where np_dtype = np_dtype_sample and handle = 7 and func_name = "''Cast''" and
       sg = sample_signature and args = "[SymV 1]" and kw = "[(''axis'', IntV 0)]" and
       w = scoped_world and s = "SymV 0" and w' = ?u and
       merged = "[(''ctx_group'', ''dev1'')]" and k = "''ctx_group''" and a = "''dev1''"]
  from thm2 h2 m2 have
    "\<exists>frame kwargs' r.
      keyword_frame sample_signature [SymV 1] [(''axis'', IntV 0)] scoped_world =
        Inr (frame, kwargs') \<and>
      created ?u = created scoped_world @ [r] \<and>
      filter (\<lambda>e. fst e = ''ctx_group'') (scalar_items kwargs') =
        [(''ctx_group'', StrV ''dev1'')]"
    by (simp add: scoped_world_def) blast
  with h2 have k: "\<exists>frame kwargs' r.
      keyword_frame sample_signature [SymV 1] [(''axis'', IntV 0)] scoped_world =
        Inr (frame, kwargs') \<and>
      created (snd (keyword_function np_dtype_sample 7 ''Cast'' sample_signature [SymV 1]
                      [(''axis'', IntV 0)] scoped_world)) = [r] \<and>
      filter (\<lambda>e. fst e = ''ctx_group'') (scalar_items kwargs') =
        [(''ctx_group'', StrV ''dev1'')]"
    by (simp add: scoped_world_def)
  from e h v k show ?thesis by blast
qed

text \<open>
  C4 as stated fails. A keyword of the caller is overwritten by an attribute of the same
  name (node-array form: the caller's \<^verbatim>\<open>dim=1\<close> is forwarded as \<^verbatim>\<open>'0'\<close>), and
  an attribute is added although the caller set a declared parameter of that name
  (keyword form: two entries \<^verbatim>\<open>axis\<close>).
\<close>

theorem attributes_folded_counterexample:
  "variadic_function np_dtype_sample 3 ''Concat'' None ''num_args'' [SymV 1, SymV 2]
     [(''dim'', IntV 1)]
     \<lparr>attr_scope = [(''dim'', ''0'')], name_counter = [], created = []\<rparr> =
     (Inr (SymV 0),
      \<lparr>attr_scope = [(''dim'', ''0'')], name_counter = [(''concat'', 1)],
       created =
         [\<lparr>req_handle = 3, req_sym_args = Some [SymV 1, SymV 2], req_sym_kwargs = [],
           req_keys = [''dim'', ''num_args''], req_vals = [StrV ''0'', IntV 2],
           req_name = StrV ''concat0''\<rparr>]\<rparr>) \<and>
   keyword_function np_dtype_sample 7 ''Cast'' sample_signature []
     [(''data'', SymV 1), (''axis'', IntV 0)]
     \<lparr>attr_scope = [(''axis'', ''1'')], name_counter = [], created = []\<rparr> =
     (Inr (SymV 0),
      \<lparr>attr_scope = [(''axis'', ''1'')], name_counter = [(''cast'', 1)],
       created =
         [\<lparr>req_handle = 7, req_sym_args = None, req_sym_kwargs = [(''data'', SymV 1)],
           req_keys = [''axis'', ''axis''], req_vals = [StrV ''1'', IntV 0],
           req_name = StrV ''cast0''\<rparr>]\<rparr>)"
  by (simp add: run_defs)

section \<open>Two calls in a row\<close>

lemma digit_val_char: "d < 10 \<Longrightarrow> digit_val (digit_char d) = d"
proof -
  assume "d < 10"
  then have "d = 0 \<or> d = 1 \<or> d = 2 \<or> d = 3 \<or> d = 4 \<or> d = 5 \<or> d = 6 \<or> d = 7 \<or> d = 8 \<or> d = 9"
    by arith
  then show ?thesis
    by (elim disjE) (simp_all add: digit_val_def digit_char_def)
qed

lemma nat_of_str_nat: "nat_of_str (str_nat n) = n"
proof (induction n rule: str_nat.induct)
  case (1 n)
  show ?case
  proof (cases "n < 10")
    case True
    then have "str_nat n = [digit_char n]" by (subst str_nat.simps) simp
    with True show ?thesis by (simp add: nat_of_str_def digit_val_char)
  next
    case False
    then have s: "str_nat n = str_nat (n div 10) @ [digit_char (n mod 10)]"
      by (subst str_nat.simps) simp
    from False "1.IH" have "nat_of_str (str_nat (n div 10)) = n div 10" by simp
    then show ?thesis
      unfolding s by (simp add: nat_of_str_def digit_val_char)
  qed
qed

lemma str_nat_inject: "str_nat m = str_nat n \<Longrightarrow> m = n"
  by (metis nat_of_str_nat)

lemma name_manager_fresh:
  "fst (name_manager_get (snd (name_manager_get counter NoneV hint)) NoneV hint) \<noteq>
   fst (name_manager_get counter NoneV hint)"
proof -
  let ?n = "case map_of counter hint of None \<Rightarrow> 0 | Some c \<Rightarrow> c"
  have 1: "name_manager_get counter NoneV hint =
             (StrV (hint @ str_nat ?n), dict_set counter hint (Suc ?n))"
    by (simp add: name_manager_get_def Let_def)
  have 2: "fst (name_manager_get (dict_set counter hint (Suc ?n)) NoneV hint) =
             StrV (hint @ str_nat (Suc ?n))"
    by (simp add: name_manager_get_def Let_def map_of_dict_set)
  have "str_nat (Suc ?n) \<noteq> str_nat ?n"
    using str_nat_inject [of "Suc ?n" ?n] by auto
  with 1 2 show ?thesis by simp
qed

lemma variadic_kwargs_scope:
  "attr_scope w1 = attr_scope w \<Longrightarrow>
   variadic_kwargs np_dtype dn kwargs w1 = variadic_kwargs np_dtype dn kwargs w"
  unfolding variadic_kwargs_def by (auto split: sum.splits)

lemma keyword_frame_scope:
  "attr_scope w1 = attr_scope w \<Longrightarrow> keyword_frame sg args kw w1 = keyword_frame sg args kw w"
  unfolding keyword_frame_def by (auto split: sum.splits)

lemma variadic_name_absent:
  assumes "variadic_kwargs np_dtype dn kwargs w = Inr (nm, kwargs')"
    and "variadic_merged np_dtype dn kwargs w = Inr merged"
    and "''name'' \<notin> fst ` set kwargs" and "''name'' \<notin> fst ` set merged"
  shows "nm = NoneV"
proof -
  from variadic_kwargs_Inr [OF assms(1)] assms(2) obtain kwargs1 where
    c: "coerce_dtype np_dtype dn kwargs = Inr kwargs1" and
    n: "nm = (case map_of (dict_update (filter (\<lambda>kv. fst kv \<noteq> ''attr'') kwargs1)
                                (str_attrs merged)) ''name'' of
                   None \<Rightarrow> NoneV | Some x \<Rightarrow> x)"
    by auto
  have "fst ` set (str_attrs merged) = fst ` set merged"
    using keys_str_attrs [of merged] by (metis set_map)
  with assms(3,4) coerce_dtype_keys [OF c] have
    "''name'' \<notin> fst ` set (dict_update (filter (\<lambda>kv. fst kv \<noteq> ''attr'') kwargs1)
                               (str_attrs merged))"
    by (simp only: keyset_dict_update keyset_remove_key) blast
  then have "map_of (dict_update (filter (\<lambda>kv. fst kv \<noteq> ''attr'') kwargs1)
                       (str_attrs merged)) ''name'' = None"
    by (simp add: map_of_eq_None_iff)
  with n show ?thesis by simp
qed

lemma repeated_variadic:
  "variadic_function np_dtype handle func_name dn key_var_num_args args kwargs w =
            (Inr s1, w1) \<and>
  variadic_merged np_dtype dn kwargs w = Inr merged \<and>
  ''name'' \<notin> fst ` set kwargs \<and> ''name'' \<notin> fst ` set merged \<longrightarrow>
    (\<exists>s2 w2 r1 r2.
       variadic_function np_dtype handle func_name dn key_var_num_args args kwargs w1 =
         (Inr s2, w2) \<and>
       created w2 = created w @ [r1, r2] \<and>
       req_name r1 \<noteq> req_name r2 \<and>
       req_keys r1 = req_keys r2 \<and> req_vals r1 = req_vals r2)"
proof (rule impI)
  assume a: "variadic_function np_dtype handle func_name dn key_var_num_args args kwargs w =
            (Inr s1, w1) \<and>
    variadic_merged np_dtype dn kwargs w = Inr merged \<and>
    ''name'' \<notin> fst ` set kwargs \<and> ''name'' \<notin> fst ` set merged"
  then have call: "variadic_function np_dtype handle func_name dn key_var_num_args args
                     kwargs w = (Inr s1, w1)" by blast
  from variadic_function_success [OF call] obtain nm kw' where
    kk: "variadic_kwargs np_dtype dn kwargs w = Inr (nm, kw')" and
    f: "find (\<lambda>i. \<not> is_symbol i) args = None" and
    w1: "w1 = w\<lparr>name_counter := snd (name_manager_get (name_counter w) nm (lower func_name)),
                created := created w @
                  [variadic_request handle key_var_num_args args kw'
                     (fst (name_manager_get (name_counter w) nm (lower func_name)))]\<rparr>"
    by blast
  from a have nm: "nm = NoneV" by (intro variadic_name_absent [OF kk]) auto
  let ?c = "name_manager_get (name_counter w) NoneV (lower func_name)"
  let ?c2 = "name_manager_get (snd ?c) NoneV (lower func_name)"
  let ?r1 = "variadic_request handle key_var_num_args args kw' (fst ?c)"
  let ?r2 = "variadic_request handle key_var_num_args args kw' (fst ?c2)"
  from w1 have "attr_scope w1 = attr_scope w" by simp
then have "variadic_kwargs np_dtype dn kwargs w1 = variadic_kwargs np_dtype dn kwargs w"
    by (rule variadic_kwargs_scope)
  with kk have kk1: "variadic_kwargs np_dtype dn kwargs w1 = Inr (nm, kw')"
    by simp
  have c1: "name_counter w1 = snd ?c" and cr1: "created w1 = created w @ [?r1]"
    using w1 nm by simp_all
  have "variadic_function np_dtype handle func_name dn key_var_num_args args kwargs w1 =
          (Inr (SymV (length (created w1))),
           w1\<lparr>name_counter := snd ?c2, created := created w1 @ [?r2]\<rparr>)"
    unfolding variadic_function_view
    apply (simp only: f kk1 c1 option.case sum.case prod.case)
    apply (simp only: nm symbol_creator_def)
    apply simp
    done
  moreover have "created (w1\<lparr>name_counter := snd ?c2, created := created w1 @ [?r2]\<rparr>) =
                   created w @ [?r1, ?r2]"
    by (simp add: cr1)
  moreover have "req_name ?r1 \<noteq> req_name ?r2"
    using name_manager_fresh [of "name_counter w" "lower func_name"]
    by (simp add: variadic_request_def)
  moreover have "req_keys ?r1 = req_keys ?r2 \<and> req_vals ?r1 = req_vals ?r2"
    by (simp add: variadic_request_def)
  ultimately show "\<exists>s2 w2 r1 r2.
       variadic_function np_dtype handle func_name dn key_var_num_args args kwargs w1 =
         (Inr s2, w2) \<and>
       created w2 = created w @ [r1, r2] \<and>
       req_name r1 \<noteq> req_name r2 \<and>
       req_keys r1 = req_keys r2 \<and> req_vals r1 = req_vals r2"
    by blast
qed

lemma repeated_keyword:
  "keyword_function np_dtype handle func_name sg args kw w = (Inr s1, w1) \<and>
  keyword_frame sg args kw w = Inr (frame, kwargs') \<and> local_var frame ''name'' = NoneV \<longrightarrow>
    (\<exists>s2 w2 r1 r2.
       keyword_function np_dtype handle func_name sg args kw w1 = (Inr s2, w2) \<and>
       created w2 = created w @ [r1, r2] \<and>
       req_name r1 \<noteq> req_name r2 \<and>
       req_keys r1 = req_keys r2 \<and> req_vals r1 = req_vals r2)"
proof (rule impI)
  assume a: "keyword_function np_dtype handle func_name sg args kw w = (Inr s1, w1) \<and>
    keyword_frame sg args kw w = Inr (frame, kwargs') \<and> local_var frame ''name'' = NoneV"
  then have call: "keyword_function np_dtype handle func_name sg args kw w = (Inr s1, w1)"
    and fr: "keyword_frame sg args kw w = Inr (frame, kwargs')"
    and nm: "local_var frame ''name'' = NoneV" by blast+
  from call fr obtain sym_kwargs kv where
    nd: "nd_args (ndarg_names sg) frame (dict_update [] (node_items kwargs')) = Inr sym_kwargs"
    and dt: "dtype_arg np_dtype (dtype_name sg) frame ([], []) = Inr kv"
    unfolding keyword_function_view by (auto split: sum.splits)
  let ?c = "name_manager_get (name_counter w) NoneV (lower func_name)"
  let ?c2 = "name_manager_get (snd ?c) NoneV (lower func_name)"
  let ?r1 = "keyword_request np_dtype handle sg frame kwargs' sym_kwargs (fst ?c)"
  let ?r2 = "keyword_request np_dtype handle sg frame kwargs' sym_kwargs (fst ?c2)"
  from keyword_function_success [OF call] obtain frame1 kwargs1 sym_kwargs1 where
    "keyword_frame sg args kw w = Inr (frame1, kwargs1)"
    "nd_args (ndarg_names sg) frame1 (dict_update [] (node_items kwargs1)) = Inr sym_kwargs1"
    "w1 = w\<lparr>name_counter :=
                    snd (name_manager_get (name_counter w) (local_var frame1 ''name'')
                           (lower func_name)),
                  created := created w @
                    [keyword_request np_dtype handle sg frame1 kwargs1 sym_kwargs1
                       (fst (name_manager_get (name_counter w) (local_var frame1 ''name'')
                               (lower func_name)))]\<rparr>"
    by blast
  with fr nd nm have w1: "w1 = w\<lparr>name_counter := snd ?c, created := created w @ [?r1]\<rparr>"
    by simp
  then have "attr_scope w1 = attr_scope w" by simp
  then have "keyword_frame sg args kw w1 = keyword_frame sg args kw w"
    by (rule keyword_frame_scope)
  with fr have fr1: "keyword_frame sg args kw w1 = Inr (frame, kwargs')"
    by simp
  have c1: "name_counter w1 = snd ?c" and cr1: "created w1 = created w @ [?r1]"
    using w1 by simp_all
  have "keyword_function np_dtype handle func_name sg args kw w1 =
          (Inr (SymV (length (created w1))),
           w1\<lparr>name_counter := snd ?c2, created := created w1 @ [?r2]\<rparr>)"
    unfolding keyword_function_view
    apply (simp only: fr1 nd dt c1 sum.case prod.case)
    apply (simp only: nm symbol_creator_def)
    apply simp
    done
  moreover have "created (w1\<lparr>name_counter := snd ?c2, created := created w1 @ [?r2]\<rparr>) =
                   created w @ [?r1, ?r2]"
    by (simp add: cr1)
  moreover have "req_name ?r1 \<noteq> req_name ?r2"
    using name_manager_fresh [of "name_counter w" "lower func_name"]
    by (simp add: keyword_request_def)
  moreover have "req_keys ?r1 = req_keys ?r2 \<and> req_vals ?r1 = req_vals ?r2"
    by (simp add: keyword_request_def)
  ultimately show "\<exists>s2 w2 r1 r2.
       keyword_function np_dtype handle func_name sg args kw w1 = (Inr s2, w2) \<and>
       created w2 = created w @ [r1, r2] \<and>
       req_name r1 \<noteq> req_name r2 \<and>
       req_keys r1 = req_keys r2 \<and> req_vals r1 = req_vals r2"
    by blast
qed

text \<open>
  C7 (as amended). Let a call reach the creator, with no name from the caller: in the
  node-array form no keyword \<^verbatim>\<open>name\<close> and no merged attribute \<^verbatim>\<open>name\<close>, in
  the keyword form the parameter \<^verbatim>\<open>name\<close> left at \<^verbatim>\<open>None\<close>. Then the same
  call made again right after it, in the world the first call has left, reaches the
  creator too; the two requests carry different names and the same \<^verbatim>\<open>keys\<close> and
  \<^verbatim>\<open>vals\<close>.
\<close>

theorem repeated_call:
  "(variadic_function np_dtype handle func_name dn key_var_num_args args kwargs w = (Inr s1, w1) \<and>
    variadic_merged np_dtype dn kwargs w = Inr merged \<and>
    ''name'' \<notin> fst ` set kwargs \<and> ''name'' \<notin> fst ` set merged \<longrightarrow>
      (\<exists>s2 w2 r1 r2.
         variadic_function np_dtype handle func_name dn key_var_num_args args kwargs w1 =
           (Inr s2, w2) \<and>
         created w2 = created w @ [r1, r2] \<and>
         req_name r1 \<noteq> req_name r2 \<and>
         req_keys r1 = req_keys r2 \<and> req_vals r1 = req_vals r2)) \<and>
   (keyword_function np_dtype handle func_name sg args kw w = (Inr s1, w1) \<and>
    keyword_frame sg args kw w = Inr (frame, kwargs') \<and> local_var frame ''name'' = NoneV \<longrightarrow>
      (\<exists>s2 w2 r1 r2.
         keyword_function np_dtype handle func_name sg args kw w1 = (Inr s2, w2) \<and>
         created w2 = created w @ [r1, r2] \<and>
         req_name r1 \<noteq> req_name r2 \<and>
         req_keys r1 = req_keys r2 \<and> req_vals r1 = req_vals r2))"
  by (rule conjI [OF repeated_variadic repeated_keyword])

theorem repeated_call_witness:
  "variadic_function np_dtype_sample 3 ''Concat'' None ''num_args'' [SymV 1, SymV 2]
     [(''dim'', IntV 1)] scoped_world =
     (Inr (SymV 0),
      \<lparr>attr_scope = [(''ctx_group'', ''dev1'')], name_counter = [(''concat'', 1)],
       created =
         [\<lparr>req_handle = 3, req_sym_args = Some [SymV 1, SymV 2], req_sym_kwargs = [],
           req_keys = [''dim'', ''ctx_group'', ''num_args''],
           req_vals = [IntV 1, StrV ''dev1'', IntV 2],
           req_name = StrV ''concat0''\<rparr>]\<rparr>) \<and>
   (\<exists>s2 w2 r1 r2.
      variadic_function np_dtype_sample 3 ''Concat'' None ''num_args'' [SymV 1, SymV 2]
        [(''dim'', IntV 1)]
        \<lparr>attr_scope = [(''ctx_group'', ''dev1'')], name_counter = [(''concat'', 1)],
         created =
           [\<lparr>req_handle = 3, req_sym_args = Some [SymV 1, SymV 2], req_sym_kwargs = [],
             req_keys = [''dim'', ''ctx_group'', ''num_args''],
             req_vals = [IntV 1, StrV ''dev1'', IntV 2],
             req_name = StrV ''concat0''\<rparr>]\<rparr> = (Inr s2, w2) \<and>
      created w2 = [r1, r2] \<and> req_name r1 \<noteq> req_name r2 \<and>
      req_keys r1 = req_keys r2 \<and> req_vals r1 = req_vals r2) \<and>
   keyword_function np_dtype_sample 7 ''Cast'' sample_signature [SymV 1]
     [(''axis'', IntV 0)] empty_world =
     (Inr (SymV 0),
      \<lparr>attr_scope = [], name_counter = [(''cast'', 1)],
       created =
         [\<lparr>req_handle = 7, req_sym_args = None, req_sym_kwargs = [(''data'', SymV 1)],
           req_keys = [''axis''], req_vals = [IntV 0],
           req_name = StrV ''cast0''\<rparr>]\<rparr>) \<and>
   (\<exists>s2 w2 r1 r2.
      keyword_function np_dtype_sample 7 ''Cast'' sample_signature [SymV 1]
        [(''axis'', IntV 0)]
        \<lparr>attr_scope = [], name_counter = [(''cast'', 1)],
         created =
           [\<lparr>req_handle = 7, req_sym_args = None, req_sym_kwargs = [(''data'', SymV 1)],
             req_keys = [''axis''], req_vals = [IntV 0],
             req_name = StrV ''cast0''\<rparr>]\<rparr> = (Inr s2, w2) \<and>
      created w2 = [r1, r2] \<and> req_name r1 \<noteq> req_name r2 \<and>
      req_keys r1 = req_keys r2 \<and> req_vals r1 = req_vals r2)"
proof -
  let ?w1 = "\<lparr>attr_scope = [(''ctx_group'', ''dev1'')], name_counter = [(''concat'', 1)],
       created =
         [\<lparr>req_handle = 3, req_sym_args = Some [SymV 1, SymV 2], req_sym_kwargs = [],
           req_keys = [''dim'', ''ctx_group'', ''num_args''],
           req_vals = [IntV 1, StrV ''dev1'', IntV 2],
           req_name = StrV ''concat0''\<rparr>]\<rparr>"
  have h: "variadic_function np_dtype_sample 3 ''Concat'' None ''num_args'' [SymV 1, SymV 2]
     [(''dim'', IntV 1)] scoped_world = (Inr (SymV 0), ?w1)"
    by (simp add: run_defs)
  have m: "variadic_merged np_dtype_sample None [(''dim'', IntV 1)] scoped_world =
             Inr [(''ctx_group'', ''dev1'')]"
    by (simp add: variadic_merged_def run_defs)
  have n: "''name'' \<notin> fst ` set [(''dim'', IntV 1)] \<and>
           ''name'' \<notin> fst ` set [(''ctx_group'', ''dev1'')]"
    by simp
  note thm1 = repeated_call
    [where np_dtype = np_dtype_sample and handle = 3 and func_name = "''Concat''" and
       dn = None and key_var_num_args = "''num_args''" and args = "[SymV 1, SymV 2]" and
       kwargs = "[(''dim'', IntV 1)]" and w = scoped_world and ?s1.0 = "SymV 0" and
       ?w1.0 = ?w1 and merged = "[(''ctx_group'', ''dev1'')]"]
  from thm1 h m n have v: "\<exists>s2 w2 r1 r2.
      variadic_function np_dtype_sample 3 ''Concat'' None ''num_args'' [SymV 1, SymV 2]
        [(''dim'', IntV 1)] ?w1 = (Inr s2, w2) \<and>
      created w2 = created scoped_world @ [r1, r2] \<and> req_name r1 \<noteq> req_name r2 \<and>
      req_keys r1 = req_keys r2 \<and> req_vals r1 = req_vals r2"
    by blast
  let ?u1 = "\<lparr>attr_scope = [], name_counter = [(''cast'', 1)],
       created =
         [\<lparr>req_handle = 7, req_sym_args = None, req_sym_kwargs = [(''data'', SymV 1)],
           req_keys = [''axis''], req_vals = [IntV 0],
           req_name = StrV ''cast0''\<rparr>]\<rparr>"
  have h2: "keyword_function np_dtype_sample 7 ''Cast'' sample_signature [SymV 1]
     [(''axis'', IntV 0)] empty_world = (Inr (SymV 0), ?u1)"
    by (simp add: run_defs)
  have f2: "keyword_frame sample_signature [SymV 1] [(''axis'', IntV 0)] empty_world =
              Inr ([(''data'', SymV 1), (''axis'', IntV 0), (''dtype'', NullV),
                    (''name'', NoneV), (''attr'', NoneV), (''out'', NoneV)], [])"
    by (simp add: keyword_frame_def run_defs)
  have n2: "local_var [(''data'', SymV 1), (''axis'', IntV 0), (''dtype'', NullV),
                    (''name'', NoneV), (''attr'', NoneV), (''out'', NoneV)] ''name'' = NoneV"
    by (simp add: local_var_def)
  note thm2 = repeated_call
    [where np_dtype = np_dtype_sample and handle = 7 and func_name = "''Cast''" and
       sg = sample_signature and args = "[SymV 1]" and kw = "[(''axis'', IntV 0)]" and
       w = empty_world and ?s1.0 = "SymV 0" and ?w1.0 = ?u1 and
       frame = "[(''data'', SymV 1), (''axis'', IntV 0), (''dtype'', NullV),
                 (''name'', NoneV), (''attr'', NoneV), (''out'', NoneV)]" and
       kwargs' = "[]"]
  from thm2 h2 f2 n2 have k: "\<exists>s2 w2 r1 r2.
      keyword_function np_dtype_sample 7 ''Cast'' sample_signature [SymV 1]
        [(''axis'', IntV 0)] ?u1 = (Inr s2, w2) \<and>
      created w2 = created empty_world @ [r1, r2] \<and> req_name r1 \<noteq> req_name r2 \<and>
      req_keys r1 = req_keys r2 \<and> req_vals r1 = req_vals r2"
    by blast
  from h v h2 k show ?thesis
    by (simp add: scoped_world_def empty_world_def)
qed

text \<open>
  C7 as stated fails in the node-array form when the active scope has an attribute
  \<^verbatim>\<open>name\<close>: the attributes are stored into the keyword mapping before
  \<^verbatim>\<open>kwargs.pop('name', None)\<close>, so the attribute becomes the name of the node, and
  two calls without a name from the caller send the same name.
\<close>

theorem repeated_call_counterexample:
  "variadic_function np_dtype_sample 3 ''Concat'' None ''num_args'' [SymV 1, SymV 2] []
     \<lparr>attr_scope = [(''name'', ''x'')], name_counter = [], created = []\<rparr> =
     (Inr (SymV 0),
      \<lparr>attr_scope = [(''name'', ''x'')], name_counter = [],
       created =
         [\<lparr>req_handle = 3, req_sym_args = Some [SymV 1, SymV 2], req_sym_kwargs = [],
           req_keys = [''num_args''], req_vals = [IntV 2], req_name = StrV ''x''\<rparr>]\<rparr>) \<and>
   variadic_function np_dtype_sample 3 ''Concat'' None ''num_args'' [SymV 1, SymV 2] []
     \<lparr>attr_scope = [(''name'', ''x'')], name_counter = [],
      created =
        [\<lparr>req_handle = 3, req_sym_args = Some [SymV 1, SymV 2], req_sym_kwargs = [],
          req_keys = [''num_args''], req_vals = [IntV 2], req_name = StrV ''x''\<rparr>]\<rparr> =
     (Inr (SymV 1),
      \<lparr>attr_scope = [(''name'', ''x'')], name_counter = [],
       created =
         [\<lparr>req_handle = 3, req_sym_args = Some [SymV 1, SymV 2], req_sym_kwargs = [],
           req_keys = [''num_args''], req_vals = [IntV 2], req_name = StrV ''x''\<rparr>,
          \<lparr>req_handle = 3, req_sym_args = Some [SymV 1, SymV 2], req_sym_kwargs = [],
           req_keys = [''num_args''], req_vals = [IntV 2], req_name = StrV ''x''\<rparr>]\<rparr>)"
  by (simp add: run_defs)

section \<open>Where node references go\<close>

lemma defaults_append: "defaults (ps @ qs) = defaults ps @ defaults qs"
  by (induction ps rule: defaults.induct) simp_all

lemma defaults_snoc_keys:
  "fst ` set (defaults (ps @ [NullDefault n])) = insert n (fst ` set (defaults ps))"
  "fst ` set (defaults (ps @ [NoneDefault n])) = insert n (fst ` set (defaults ps))"
  "fst ` set (defaults (ps @ [Star n])) = fst ` set (defaults ps)"
  by (simp_all add: defaults_append)

lemma classify_arg_names:
  assumes "classify_arg s a = Inr s'" and "names_declared s"
  shows "names_declared s'"
proof -
  from assms(2) have
    1: "set (ndarg_names s) \<subseteq> fst ` set (defaults (ndsignature s))" and
    2: "set (kwarg_names s) \<subseteq> fst ` set (defaults (signature s))" and
    3: "\<And>d. dtype_name s = Some d \<Longrightarrow> d \<in> fst ` set (defaults (signature s))"
    by (simp_all add: names_declared_def split: option.splits)
  consider
    (dtype) "s' = s\<lparr>dtype_name := Some (fst a),
                       signature := signature s @ [NullDefault (fst a)]\<rparr>"
  | (array) "s' = s\<lparr>ndsignature := ndsignature s @ [Star (fst a)], arr_name := Some (fst a)\<rparr>"
  | (node) "s' = s\<lparr>ndsignature := ndsignature s @ [NoneDefault (fst a)],
                      ndarg_names := ndarg_names s @ [fst a]\<rparr>"
  | (scalar) "s' = s\<lparr>signature := signature s @ [NullDefault (fst a)],
                        kwarg_names := kwarg_names s @ [fst a]\<rparr>"
    using assms(1) by (auto simp: classify_arg_cases split: if_splits)
  then show ?thesis
  proof cases
    case dtype
    with 1 2 3 show ?thesis
      unfolding names_declared_def
      by (simp add: defaults_snoc_keys split: option.splits) blast
  next
    case array
    with 1 2 3 show ?thesis
      unfolding names_declared_def
      by (simp add: defaults_snoc_keys split: option.splits)
  next
    case node
    with 1 2 3 show ?thesis
      unfolding names_declared_def
      by (simp add: defaults_snoc_keys split: option.splits) blast
  next
    case scalar
    with 1 2 3 show ?thesis
      unfolding names_declared_def
      by (simp add: defaults_snoc_keys split: option.splits) blast
  qed
qed

lemma classify_args_names:
  "classify_args s as = Inr s' \<Longrightarrow> names_declared s \<Longrightarrow> names_declared s'"
proof (induction as arbitrary: s)
  case Nil
  then show ?case by simp
next
  case (Cons a as)
  then show ?case
    by (auto split: sum.splits dest: classify_arg_names)
qed

lemma classify_param_names:
  assumes "classify decl = Inr sg"
  shows "set (ndarg_names sg) \<subseteq> param_names sg"
    and "set (kwarg_names sg) \<subseteq> param_names sg"
    and "dtype_name sg = Some d \<Longrightarrow> d \<in> param_names sg"
proof -
  from assms obtain s1 where s1: "classify_args init_signature decl = Inr s1"
    and sg: "sg = s1\<lparr>signature := ndsignature s1 @ signature s1 @
                   [NoneDefault ''name'', NoneDefault ''attr'', NoneDefault ''out'', KwTail]\<rparr>"
    by (auto simp: classify_def split: sum.splits)
  have "names_declared init_signature"
    by (simp add: names_declared_def init_signature_def)
  with s1 have n: "names_declared s1" by (rule classify_args_names)
  from n sg show "set (ndarg_names sg) \<subseteq> param_names sg"
    by (auto simp: names_declared_def param_names_def defaults_append)
  from n sg show "set (kwarg_names sg) \<subseteq> param_names sg"
    by (auto simp: names_declared_def param_names_def defaults_append)
  assume "dtype_name sg = Some d"
  with n sg show "d \<in> param_names sg"
    by (auto simp: names_declared_def param_names_def defaults_append)
qed

lemma map_of_filter_keys:
  "map_of (filter (\<lambda>kv. fst kv \<in> S) d) k = (if k \<in> S then map_of d k else None)"
  by (induction d) auto

lemma map_of_filter_not_keys:
  "map_of (filter (\<lambda>kv. fst kv \<notin> S) d) k = (if k \<in> S then None else map_of d k)"
  by (induction d) auto

lemma bind_args_keyword:
  assumes "bind_args ps args kw = Inr (frame0, kwargs0)"
    and "distinct (map fst kw)" and "map_of kw k = Some x"
    and "k \<in> fst ` set (defaults ps)"
  shows "map_of frame0 k = Some x"
proof -
  let ?e = "filter (\<lambda>kv. fst kv \<in> fst ` set (defaults ps)) kw"
  from assms(1) have f: "frame0 =
      dict_update (dict_update (defaults ps) (zip (positional_slots ps) args)) ?e"
    by (auto simp: bind_args_def Let_def split: if_splits)
  from assms(2) have "distinct (map fst ?e)" by (simp add: distinct_map_filter)
  then have "map_of (rev ?e) = map_of ?e" by (rule map_of_rev_distinct)
  moreover from assms(3,4) have "map_of ?e k = Some x" by (simp add: map_of_filter_keys)
  ultimately show ?thesis unfolding f by (simp add: map_of_dict_update)
qed

lemma loop_targets_other:
  "n \<noteq> ''k'' \<Longrightarrow> n \<noteq> ''v'' \<Longrightarrow> local_var (loop_targets kwargs frame0) n = local_var frame0 n"
  by (simp add: loop_targets_def local_var_def map_of_dict_set)

lemma nd_args_map_of:
  "nd_args ns frame sk = Inr sk' \<Longrightarrow>
   map_of sk' n =
     (if n \<in> set ns \<and> local_var frame n \<noteq> NoneV then Some (local_var frame n)
      else map_of sk n)"
proof (induction ns arbitrary: sk)
  case Nil
  then show ?case by simp
next
  case (Cons m ns)
  show ?case
  proof (cases "local_var frame m = NoneV")
    case True
    with Cons.prems have "nd_args ns frame sk = Inr sk'" by (simp add: Let_def)
    from Cons.IH [OF this] True show ?thesis by auto
  next
    case False
    with Cons.prems have s: "is_symbol (local_var frame m)"
      and r: "nd_args ns frame (dict_set sk m (local_var frame m)) = Inr sk'"
      by (auto simp: Let_def split: if_splits)
    from Cons.IH [OF r] False show ?thesis by (auto simp: map_of_dict_set)
  qed
qed

lemma map_of_distinct_member:
  "distinct (map fst d) \<Longrightarrow> (k, x) \<in> set d \<Longrightarrow> map_of d k = Some x"
  by simp

lemma declared_items_member:
  "n \<in> set ns \<Longrightarrow> local_var frame n \<noteq> NullV \<Longrightarrow>
   (n, local_var frame n) \<in> set (declared_items frame ns)"
  by (auto simp: declared_items_def)

lemma declared_items_keys: "fst ` set (declared_items frame ns) \<subseteq> set ns"
  by (auto simp: declared_items_def)

lemma dtype_items_keys: "fst ` set (dtype_items np_dtype dn frame) \<subseteq> set_option dn"
  by (auto simp: dtype_items_def split: option.splits if_splits)

lemma scalar_items_no_symbol: "\<forall>e\<in>set (scalar_items d). \<not> is_symbol (snd e)"
  by (simp add: scalar_items_def)

lemma injected_no_symbol:
  "\<forall>e\<in>set (injected key_var_num_args kwargs sym_args). \<not> is_symbol (snd e)"
  by (simp add: injected_def)

lemma node_value_routed:
  assumes "distinct (map fst d)" and "map_of d k = Some x" and "is_symbol x"
  shows "(k, x) \<in> set (dict_update [] (node_items d))"
    and "k \<notin> fst ` set (scalar_items d)"
proof -
  note f = filter_key_items [OF assms(1,2)]
  from f(2) assms(3) have
    "(k, x) \<in> set (filter (\<lambda>e. fst e = k) (node_items d))" by simp
  then have "(k, x) \<in> set (node_items d)" by simp
  then show "(k, x) \<in> set (dict_update [] (node_items d))"
    by (simp add: node_items_dict [OF assms(1)])
  from f(1) assms(3) have "filter (\<lambda>e. fst e = k) (scalar_items d) = []" by simp
  then show "k \<notin> fst ` set (scalar_items d)"
    by (auto simp: filter_empty_conv)
qed

lemma variadic_nodes_routed:
  assumes "variadic_function np_dtype handle func_name dn key_var_num_args args kwargs w =
             (Inr s, w')"
    and "distinct (map fst kwargs)" and "distinct (map fst (attr_scope w))"
    and "variadic_merged np_dtype dn kwargs w = Inr merged"
  shows "\<exists>r. created w' = created w @ [r] \<and>
           (\<forall>x\<in>set (req_vals r). \<not> is_symbol x) \<and>
           (\<forall>k x. map_of kwargs k = Some x \<and> is_symbol x \<and>
                  k \<notin> {''attr'', ''name'', ''out''} \<and> k \<notin> fst ` set merged \<and> dn \<noteq> Some k \<longrightarrow>
                  (k, x) \<in> set (req_sym_kwargs r) \<and> k \<notin> set (req_keys r))"
proof -
  from variadic_function_success [OF assms(1)] obtain nm kwargs' where
    kk: "variadic_kwargs np_dtype dn kwargs w = Inr (nm, kwargs')" and
    w': "w' = w\<lparr>name_counter := snd (name_manager_get (name_counter w) nm (lower func_name)),
                  created := created w @
                    [variadic_request handle key_var_num_args args kwargs'
                       (fst (name_manager_get (name_counter w) nm (lower func_name)))]\<rparr>"
    by blast
  let ?r = "variadic_request handle key_var_num_args args kwargs'
              (fst (name_manager_get (name_counter w) nm (lower func_name)))"
  from variadic_kwargs_distinct [OF kk assms(2)] have dk: "distinct (map fst kwargs')" .
  have vals: "\<forall>x\<in>set (req_vals ?r). \<not> is_symbol x"
    using scalar_items_no_symbol [of kwargs']
      injected_no_symbol [of key_var_num_args kwargs' args]
    by (auto simp: variadic_request_def)
  have routed: "(k, x) \<in> set (req_sym_kwargs ?r) \<and> k \<notin> set (req_keys ?r)"
    if a: "map_of kwargs k = Some x \<and> is_symbol x \<and>
           k \<notin> {''attr'', ''name'', ''out''} \<and> k \<notin> fst ` set merged \<and> dn \<noteq> Some k" for k x
  proof -
    from a have mk: "map_of kwargs' k = Some x"
      by (intro variadic_kwargs_caller [OF kk assms(4) assms(3)]) auto
    from a have sx: "is_symbol x" by blast
    note n = node_value_routed [OF dk mk sx]
    from mk have "dict_contains kwargs' k" by (simp add: dict_contains_def)
    then have "k \<notin> fst ` set (injected key_var_num_args kwargs' args)"
      by (auto simp: injected_def)
    with n show ?thesis
      by (simp add: variadic_request_def image_Un)
  qed
  from w' have "created w' = created w @ [?r]" by simp
  with vals routed show ?thesis by blast
qed

lemma keyword_nodes_routed:
  assumes "classify decl = Inr sg"
    and "keyword_function np_dtype handle func_name sg args kw w = (Inr s, w')"
    and "distinct (map fst kw)" and "distinct (map fst (attr_scope w))"
    and "keyword_merged sg args kw w = Inr merged"
  shows "\<exists>frame kwargs' r.
           keyword_frame sg args kw w = Inr (frame, kwargs') \<and>
           created w' = created w @ [r] \<and>
           zip (req_keys r) (req_vals r) =
             scalar_items kwargs' @ declared_items frame (kwarg_names sg) @
             dtype_items np_dtype (dtype_name sg) frame \<and>
           (\<forall>e\<in>set (scalar_items kwargs'). \<not> is_symbol (snd e)) \<and>
           (\<forall>k x. map_of kw k = Some x \<and> is_symbol x \<longrightarrow>
              (k \<notin> param_names sg \<and> k \<notin> fst ` set merged \<longrightarrow>
                 (k, x) \<in> set (req_sym_kwargs r) \<and> k \<notin> set (req_keys r)) \<and>
              (k \<in> set (ndarg_names sg) \<and> k \<notin> {''k'', ''v''} \<longrightarrow>
                 (k, x) \<in> set (req_sym_kwargs r)) \<and>
              (k \<in> set (kwarg_names sg) \<and> k \<notin> {''k'', ''v''} \<longrightarrow>
                 (k, x) \<in> set (zip (req_keys r) (req_vals r))))"
proof -
  from keyword_function_success [OF assms(2)] obtain frame kwargs' sym_kwargs where
    fr: "keyword_frame sg args kw w = Inr (frame, kwargs')" and
    nd: "nd_args (ndarg_names sg) frame (dict_update [] (node_items kwargs')) = Inr sym_kwargs" and
    w': "w' = w\<lparr>name_counter :=
                    snd (name_manager_get (name_counter w) (local_var frame ''name'')
                           (lower func_name)),
                  created := created w @
                    [keyword_request np_dtype handle sg frame kwargs' sym_kwargs
                       (fst (name_manager_get (name_counter w) (local_var frame ''name'')
                               (lower func_name)))]\<rparr>"
    by blast
  let ?r = "keyword_request np_dtype handle sg frame kwargs' sym_kwargs
              (fst (name_manager_get (name_counter w) (local_var frame ''name'')
                      (lower func_name)))"
  let ?es = "scalar_items kwargs' @ declared_items frame (kwarg_names sg) @
             dtype_items np_dtype (dtype_name sg) frame"
  from keyword_frame_Inr [OF fr] assms(5) obtain frame0 kwargs0 where
    b: "bind_args (signature sg) args kw = Inr (frame0, kwargs0)" and
    k0: "kwargs0 = filter (\<lambda>kv. fst kv \<notin> param_names sg) kw" and
    kk: "kwargs' = dict_update kwargs0 (str_attrs merged)" and
    f: "frame = loop_targets kwargs' frame0"
    by auto
  from assms(5) b have "attr_scope_get (attr_scope w) (local_var frame0 ''attr'') = Inr merged"
    by (simp add: keyword_merged_def)
  from attr_scope_get_distinct [OF this assms(4)] have dm: "distinct (map fst merged)" .
  from keyword_frame_distinct [OF fr assms(3)] have dk: "distinct (map fst kwargs')" .
  have z: "zip (req_keys ?r) (req_vals ?r) = ?es"
    by (simp add: keyword_request_def zip_map_fst_snd del: map_append)
  have ks: "set (req_keys ?r) = fst ` set ?es"
    by (simp add: keyword_request_def image_Un)
  have sk: "req_sym_kwargs ?r = sym_kwargs" by (simp add: keyword_request_def)
  note cn = classify_param_names [OF assms(1)]
  have tail: "(k, x) \<in> set (req_sym_kwargs ?r) \<and> k \<notin> set (req_keys ?r)"
    if a: "map_of kw k = Some x" "is_symbol x" "k \<notin> param_names sg" "k \<notin> fst ` set merged"
    for k x
  proof -
    from a(4) have "map_of merged k = None" by (simp add: map_of_eq_None_iff)
    with a(1,3) have mk: "map_of kwargs' k = Some x"
      unfolding kk k0 by (simp add: map_of_update_attrs [OF dm] map_of_filter_not_keys)
    note n = node_value_routed [OF dk mk a(2)]
    from a(3) cn(1) have "k \<notin> set (ndarg_names sg)" by blast
    then have m: "map_of sym_kwargs k = map_of (dict_update [] (node_items kwargs')) k"
      using nd_args_map_of [OF nd, of k] by simp
    have dn: "distinct (map fst (node_items kwargs'))"
      using dk by (simp add: node_items_def distinct_map_filter)
    from n(1) have "(k, x) \<in> set (node_items kwargs')"
      by (simp only: node_items_dict [OF dk])
    with dn have "map_of (node_items kwargs') k = Some x"
      by (rule map_of_distinct_member)
    with m have "map_of sym_kwargs k = Some x"
      by (simp only: node_items_dict [OF dk])
    then have 1: "(k, x) \<in> set sym_kwargs" by (rule map_of_SomeD)
    from a(3) cn(2) have "k \<notin> fst ` set (declared_items frame (kwarg_names sg))"
      using declared_items_keys [of frame "kwarg_names sg"] by blast
    moreover from a(3) cn(3) have
      "k \<notin> fst ` set (dtype_items np_dtype (dtype_name sg) frame)"
      using dtype_items_keys [of np_dtype "dtype_name sg" frame]
      by (cases "dtype_name sg") auto
    ultimately have "k \<notin> fst ` set ?es" using n(2) by (simp add: image_Un)
    with 1 show ?thesis by (simp only: ks sk) simp
  qed
  have bound: "local_var frame k = x"
    if a: "map_of kw k = Some x" "k \<in> param_names sg" "k \<notin> {''k'', ''v''}" for k x
  proof -
    from a(2) have "k \<in> fst ` set (defaults (signature sg))" by (simp add: param_names_def)
    from bind_args_keyword [OF b assms(3) a(1) this] have "local_var frame0 k = x"
      by (simp add: local_var_def)
    with a(3) show ?thesis unfolding f by (simp add: loop_targets_other)
  qed
  have node: "(k, x) \<in> set (req_sym_kwargs ?r)"
    if a: "map_of kw k = Some x" "is_symbol x" "k \<in> set (ndarg_names sg)" "k \<notin> {''k'', ''v''}"
    for k x
  proof -
    from a(3) cn(1) have "k \<in> param_names sg" by blast
    from bound [OF a(1) this a(4)] have l: "local_var frame k = x" .
    with a(2) have "local_var frame k \<noteq> NoneV" by auto
    with nd_args_map_of [OF nd, of k] a(3) l have "map_of sym_kwargs k = Some x" by simp
    then show ?thesis unfolding sk by (rule map_of_SomeD)
  qed
  have scalar: "(k, x) \<in> set (zip (req_keys ?r) (req_vals ?r))"
    if a: "map_of kw k = Some x" "is_symbol x" "k \<in> set (kwarg_names sg)" "k \<notin> {''k'', ''v''}"
    for k x
  proof -
    from a(3) cn(2) have "k \<in> param_names sg" by blast
    from bound [OF a(1) this a(4)] have l: "local_var frame k = x" .
    with a(2) have "local_var frame k \<noteq> NullV" by auto
    from declared_items_member [OF a(3) this] l show ?thesis
      unfolding z by simp
  qed
  from w' have "created w' = created w @ [?r]" by simp
  with fr z scalar_items_no_symbol [of kwargs'] tail node scalar show ?thesis
    by blast
qed

text \<open>
  C1 (as amended). Node-array form: when the call reaches the creator no value of
  \<^verbatim>\<open>vals\<close> is a node reference, and every keyword of the caller whose value is a
  node reference (other than \<^verbatim>\<open>attr\<close>, \<^verbatim>\<open>name\<close>, \<^verbatim>\<open>out\<close>, the coerced
  \<^verbatim>\<open>dtype\<close> and a keyword that a merged attribute overwrites) is among the keyword
  nodes, its key not among \<^verbatim>\<open>keys\<close>. Keyword form, for a signature that
  classification has returned: no entry that the keyword mapping contributes carries a
  node reference; a node-valued keyword of the open tail that no merged attribute
  overwrites is among the keyword nodes, its key not among \<^verbatim>\<open>keys\<close>; a node-valued
  keyword for a declared single-node parameter is among the keyword nodes; and a
  node-valued keyword for a declared plain scalar parameter is an entry of
  \<^verbatim>\<open>keys\<close>/\<^verbatim>\<open>vals\<close> (the last two for parameters not named \<^verbatim>\<open>k\<close> or
  \<^verbatim>\<open>v\<close>, the names of the loop's own targets).
\<close>

theorem node_keywords_routed:
  "(variadic_function np_dtype handle func_name dn key_var_num_args args kwargs w = (Inr s, w') \<and>
    distinct (map fst kwargs) \<and> distinct (map fst (attr_scope w)) \<and>
    variadic_merged np_dtype dn kwargs w = Inr merged \<longrightarrow>
      (\<exists>r. created w' = created w @ [r] \<and>
           (\<forall>x\<in>set (req_vals r). \<not> is_symbol x) \<and>
           (\<forall>k x. map_of kwargs k = Some x \<and> is_symbol x \<and>
                  k \<notin> {''attr'', ''name'', ''out''} \<and> k \<notin> fst ` set merged \<and> dn \<noteq> Some k \<longrightarrow>
                  (k, x) \<in> set (req_sym_kwargs r) \<and> k \<notin> set (req_keys r)))) \<and>
   (classify decl = Inr sg \<and>
    keyword_function np_dtype handle func_name sg args kw w = (Inr s, w') \<and>
    distinct (map fst kw) \<and> distinct (map fst (attr_scope w)) \<and>
    keyword_merged sg args kw w = Inr merged \<longrightarrow>
      (\<exists>frame kwargs' r.
           keyword_frame sg args kw w = Inr (frame, kwargs') \<and>
           created w' = created w @ [r] \<and>
           zip (req_keys r) (req_vals r) =
             scalar_items kwargs' @ declared_items frame (kwarg_names sg) @
             dtype_items np_dtype (dtype_name sg) frame \<and>
           (\<forall>e\<in>set (scalar_items kwargs'). \<not> is_symbol (snd e)) \<and>
           (\<forall>k x. map_of kw k = Some x \<and> is_symbol x \<longrightarrow>
              (k \<notin> param_names sg \<and> k \<notin> fst ` set merged \<longrightarrow>
                 (k, x) \<in> set (req_sym_kwargs r) \<and> k \<notin> set (req_keys r)) \<and>
              (k \<in> set (ndarg_names sg) \<and> k \<notin> {''k'', ''v''} \<longrightarrow>
                 (k, x) \<in> set (req_sym_kwargs r)) \<and>
              (k \<in> set (kwarg_names sg) \<and> k \<notin> {''k'', ''v''} \<longrightarrow>
                 (k, x) \<in> set (zip (req_keys r) (req_vals r))))))"
proof (rule conjI)
  show "variadic_function np_dtype handle func_name dn key_var_num_args args kwargs w =
          (Inr s, w') \<and>
    distinct (map fst kwargs) \<and> distinct (map fst (attr_scope w)) \<and>
    variadic_merged np_dtype dn kwargs w = Inr merged \<longrightarrow>
      (\<exists>r. created w' = created w @ [r] \<and>
           (\<forall>x\<in>set (req_vals r). \<not> is_symbol x) \<and>
           (\<forall>k x. map_of kwargs k = Some x \<and> is_symbol x \<and>
                  k \<notin> {''attr'', ''name'', ''out''} \<and> k \<notin> fst ` set merged \<and> dn \<noteq> Some k \<longrightarrow>
                  (k, x) \<in> set (req_sym_kwargs r) \<and> k \<notin> set (req_keys r)))"
  proof (rule impI, elim conjE)
    assume "variadic_function np_dtype handle func_name dn key_var_num_args args kwargs w =
              (Inr s, w')"
      "distinct (map fst kwargs)" "distinct (map fst (attr_scope w))"
      "variadic_merged np_dtype dn kwargs w = Inr merged"
    then show "\<exists>r. created w' = created w @ [r] \<and>
           (\<forall>x\<in>set (req_vals r). \<not> is_symbol x) \<and>
           (\<forall>k x. map_of kwargs k = Some x \<and> is_symbol x \<and>
                  k \<notin> {''attr'', ''name'', ''out''} \<and> k \<notin> fst ` set merged \<and> dn \<noteq> Some k \<longrightarrow>
                  (k, x) \<in> set (req_sym_kwargs r) \<and> k \<notin> set (req_keys r))"
      by (rule variadic_nodes_routed)
  qed
next
  show "classify decl = Inr sg \<and>
    keyword_function np_dtype handle func_name sg args kw w = (Inr s, w') \<and>
    distinct (map fst kw) \<and> distinct (map fst (attr_scope w)) \<and>
    keyword_merged sg args kw w = Inr merged \<longrightarrow>
      (\<exists>frame kwargs' r.
           keyword_frame sg args kw w = Inr (frame, kwargs') \<and>
           created w' = created w @ [r] \<and>
           zip (req_keys r) (req_vals r) =
             scalar_items kwargs' @ declared_items frame (kwarg_names sg) @
             dtype_items np_dtype (dtype_name sg) frame \<and>
           (\<forall>e\<in>set (scalar_items kwargs'). \<not> is_symbol (snd e)) \<and>
           (\<forall>k x. map_of kw k = Some x \<and> is_symbol x \<longrightarrow>
              (k \<notin> param_names sg \<and> k \<notin> fst ` set merged \<longrightarrow>
                 (k, x) \<in> set (req_sym_kwargs r) \<and> k \<notin> set (req_keys r)) \<and>
              (k \<in> set (ndarg_names sg) \<and> k \<notin> {''k'', ''v''} \<longrightarrow>
                 (k, x) \<in> set (req_sym_kwargs r)) \<and>
              (k \<in> set (kwarg_names sg) \<and> k \<notin> {''k'', ''v''} \<longrightarrow>
                 (k, x) \<in> set (zip (req_keys r) (req_vals r)))))"
  proof (rule impI, elim conjE)
    assume "classify decl = Inr sg"
      "keyword_function np_dtype handle func_name sg args kw w = (Inr s, w')"
      "distinct (map fst kw)" "distinct (map fst (attr_scope w))"
      "keyword_merged sg args kw w = Inr merged"
    then show "\<exists>frame kwargs' r.
           keyword_frame sg args kw w = Inr (frame, kwargs') \<and>
           created w' = created w @ [r] \<and>
           zip (req_keys r) (req_vals r) =
             scalar_items kwargs' @ declared_items frame (kwarg_names sg) @
             dtype_items np_dtype (dtype_name sg) frame \<and>
           (\<forall>e\<in>set (scalar_items kwargs'). \<not> is_symbol (snd e)) \<and>
           (\<forall>k x. map_of kw k = Some x \<and> is_symbol x \<longrightarrow>
              (k \<notin> param_names sg \<and> k \<notin> fst ` set merged \<longrightarrow>
                 (k, x) \<in> set (req_sym_kwargs r) \<and> k \<notin> set (req_keys r)) \<and>
              (k \<in> set (ndarg_names sg) \<and> k \<notin> {''k'', ''v''} \<longrightarrow>
                 (k, x) \<in> set (req_sym_kwargs r)) \<and>
              (k \<in> set (kwarg_names sg) \<and> k \<notin> {''k'', ''v''} \<longrightarrow>
                 (k, x) \<in> set (zip (req_keys r) (req_vals r))))"
      by (rule keyword_nodes_routed)
  qed
qed

theorem node_keywords_routed_witness:
  "variadic_function np_dtype_sample 3 ''Concat'' None ''num_args'' [SymV 1, SymV 2]
     [(''extra'', SymV 5), (''dim'', IntV 1)] scoped_world =
     (Inr (SymV 0),
      \<lparr>attr_scope = [(''ctx_group'', ''dev1'')], name_counter = [(''concat'', 1)],
       created =
         [\<lparr>req_handle = 3, req_sym_args = Some [SymV 1, SymV 2],
           req_sym_kwargs = [(''extra'', SymV 5)],
           req_keys = [''dim'', ''ctx_group'', ''num_args''],
           req_vals = [IntV 1, StrV ''dev1'', IntV 3],
           req_name = StrV ''concat0''\<rparr>]\<rparr>) \<and>
   (\<exists>r. created (snd (variadic_function np_dtype_sample 3 ''Concat'' None ''num_args''
                       [SymV 1, SymV 2] [(''extra'', SymV 5), (''dim'', IntV 1)]
                       scoped_world)) = [r] \<and>
        (''extra'', SymV 5) \<in> set (req_sym_kwargs r) \<and> ''extra'' \<notin> set (req_keys r)) \<and>
   keyword_function np_dtype_sample 7 ''Cast'' sample_signature []
     [(''data'', SymV 1), (''extra'', SymV 9), (''axis'', IntV 0)] scoped_world =
     (Inr (SymV 0),
      \<lparr>attr_scope = [(''ctx_group'', ''dev1'')], name_counter = [(''cast'', 1)],
       created =
         [\<lparr>req_handle = 7, req_sym_args = None,
           req_sym_kwargs = [(''extra'', SymV 9), (''data'', SymV 1)],
           req_keys = [''ctx_group'', ''axis''], req_vals = [StrV ''dev1'', IntV 0],
           req_name = StrV ''cast0''\<rparr>]\<rparr>) \<and>
   (\<exists>r. created (snd (keyword_function np_dtype_sample 7 ''Cast'' sample_signature []
                       [(''data'', SymV 1), (''extra'', SymV 9), (''axis'', IntV 0)]
                       scoped_world)) = [r] \<and>
        (''extra'', SymV 9) \<in> set (req_sym_kwargs r) \<and> ''extra'' \<notin> set (req_keys r) \<and>
        (''data'', SymV 1) \<in> set (req_sym_kwargs r))"
proof -
  let ?w1 = "\<lparr>attr_scope = [(''ctx_group'', ''dev1'')], name_counter = [(''concat'', 1)],
       created =
         [\<lparr>req_handle = 3, req_sym_args = Some [SymV 1, SymV 2],
           req_sym_kwargs = [(''extra'', SymV 5)],
           req_keys = [''dim'', ''ctx_group'', ''num_args''],
           req_vals = [IntV 1, StrV ''dev1'', IntV 3],
           req_name = StrV ''concat0''\<rparr>]\<rparr>"
  have h: "variadic_function np_dtype_sample 3 ''Concat'' None ''num_args'' [SymV 1, SymV 2]
     [(''extra'', SymV 5), (''dim'', IntV 1)] scoped_world = (Inr (SymV 0), ?w1)"
    by (simp add: run_defs)
  have m: "variadic_merged np_dtype_sample None [(''extra'', SymV 5), (''dim'', IntV 1)]
             scoped_world = Inr [(''ctx_group'', ''dev1'')]"
    by (simp add: variadic_merged_def run_defs)
  have d: "distinct (map fst [(''extra'', SymV 5), (''dim'', IntV 1)]) \<and>
           distinct (map fst (attr_scope scoped_world))"
    by (simp add: scoped_world_def)
  note thm1 = node_keywords_routed
    [where np_dtype = np_dtype_sample and handle = 3 and func_name = "''Concat''" and
       dn = None and key_var_num_args = "''num_args''" and args = "[SymV 1, SymV 2]" and
       kwargs = "[(''extra'', SymV 5), (''dim'', IntV 1)]" and w = scoped_world and
       s = "SymV 0" and w' = ?w1 and merged = "[(''ctx_group'', ''dev1'')]"]
  have p1: "variadic_function np_dtype_sample 3 ''Concat'' None ''num_args'' [SymV 1, SymV 2]
     [(''extra'', SymV 5), (''dim'', IntV 1)] scoped_world = (Inr (SymV 0), ?w1) \<and>
    distinct (map fst [(''extra'', SymV 5), (''dim'', IntV 1)]) \<and>
    distinct (map fst (attr_scope scoped_world)) \<and>
    variadic_merged np_dtype_sample None [(''extra'', SymV 5), (''dim'', IntV 1)]
      scoped_world = Inr [(''ctx_group'', ''dev1'')]"
    by (intro conjI h m conjunct1 [OF d] conjunct2 [OF d])
  from thm1 [THEN conjunct1, THEN mp, OF p1] obtain r where
    r: "created ?w1 = created scoped_world @ [r]" and
    a: "\<forall>k x. map_of [(''extra'', SymV 5), (''dim'', IntV 1)] k = Some x \<and> is_symbol x \<and>
           k \<notin> {''attr'', ''name'', ''out''} \<and> k \<notin> fst ` set [(''ctx_group'', ''dev1'')] \<and>
           None \<noteq> Some k \<longrightarrow>
           (k, x) \<in> set (req_sym_kwargs r) \<and> k \<notin> set (req_keys r)"
    by (elim exE conjE) (rule that, assumption+)
  have "map_of [(''extra'', SymV 5), (''dim'', IntV 1)] ''extra'' = Some (SymV 5) \<and>
        is_symbol (SymV 5) \<and> ''extra'' \<notin> {''attr'', ''name'', ''out''} \<and>
        ''extra'' \<notin> fst ` set [(''ctx_group'', ''dev1'')] \<and> None \<noteq> Some ''extra''"
    by simp
  with a have "(''extra'', SymV 5) \<in> set (req_sym_kwargs r) \<and> ''extra'' \<notin> set (req_keys r)"
    by blast
  with r h have v: "\<exists>r. created (snd (variadic_function np_dtype_sample 3 ''Concat'' None
                       ''num_args'' [SymV 1, SymV 2] [(''extra'', SymV 5), (''dim'', IntV 1)]
                       scoped_world)) = [r] \<and>
        (''extra'', SymV 5) \<in> set (req_sym_kwargs r) \<and> ''extra'' \<notin> set (req_keys r)"
    by (simp add: scoped_world_def)
  let ?u1 = "\<lparr>attr_scope = [(''ctx_group'', ''dev1'')], name_counter = [(''cast'', 1)],
       created =
         [\<lparr>req_handle = 7, req_sym_args = None,
           req_sym_kwargs = [(''extra'', SymV 9), (''data'', SymV 1)],
           req_keys = [''ctx_group'', ''axis''], req_vals = [StrV ''dev1'', IntV 0],
           req_name = StrV ''cast0''\<rparr>]\<rparr>"
  have h2: "keyword_function np_dtype_sample 7 ''Cast'' sample_signature []
     [(''data'', SymV 1), (''extra'', SymV 9), (''axis'', IntV 0)] scoped_world =
     (Inr (SymV 0), ?u1)"
    by (simp add: run_defs)
  have m2: "keyword_merged sample_signature []
              [(''data'', SymV 1), (''extra'', SymV 9), (''axis'', IntV 0)] scoped_world =
              Inr [(''ctx_group'', ''dev1'')]"
    by (simp add: keyword_merged_def run_defs)
  have d2: "distinct (map fst [(''data'', SymV 1), (''extra'', SymV 9), (''axis'', IntV 0)])"
    by simp
  note thm2 = node_keywords_routed
    [where decl = sample_decl and sg = sample_signature and np_dtype = np_dtype_sample and
       handle = 7 and func_name = "''Cast''" and args = "[]" and
       kw = "[(''data'', SymV 1), (''extra'', SymV 9), (''axis'', IntV 0)]" and
       w = scoped_world and s = "SymV 0" and w' = ?u1 and
       merged = "[(''ctx_group'', ''dev1'')]"]
  have p2: "classify sample_decl = Inr sample_signature \<and>
    keyword_function np_dtype_sample 7 ''Cast'' sample_signature []
      [(''data'', SymV 1), (''extra'', SymV 9), (''axis'', IntV 0)] scoped_world =
      (Inr (SymV 0), ?u1) \<and>
    distinct (map fst [(''data'', SymV 1), (''extra'', SymV 9), (''axis'', IntV 0)]) \<and>
    distinct (map fst (attr_scope scoped_world)) \<and>
    keyword_merged sample_signature []
      [(''data'', SymV 1), (''extra'', SymV 9), (''axis'', IntV 0)] scoped_world =
      Inr [(''ctx_group'', ''dev1'')]"
    by (intro conjI classify_sample h2 m2 d2 conjunct2 [OF d])
  from thm2 [THEN conjunct2, THEN mp, OF p2] obtain r2 where
    r2: "created ?u1 = created scoped_world @ [r2]" and
    a2: "\<forall>k x. map_of [(''data'', SymV 1), (''extra'', SymV 9), (''axis'', IntV 0)] k = Some x \<and>
           is_symbol x \<longrightarrow>
              (k \<notin> param_names sample_signature \<and> k \<notin> fst ` set [(''ctx_group'', ''dev1'')] \<longrightarrow>
                 (k, x) \<in> set (req_sym_kwargs r2) \<and> k \<notin> set (req_keys r2)) \<and>
              (k \<in> set (ndarg_names sample_signature) \<and> k \<notin> {''k'', ''v''} \<longrightarrow>
                 (k, x) \<in> set (req_sym_kwargs r2)) \<and>
              (k \<in> set (kwarg_names sample_signature) \<and> k \<notin> {''k'', ''v''} \<longrightarrow>
                 (k, x) \<in> set (zip (req_keys r2) (req_vals r2)))"
    by (elim exE conjE) (rule that, assumption+)
  have "map_of [(''data'', SymV 1), (''extra'', SymV 9), (''axis'', IntV 0)] ''extra'' =
          Some (SymV 9) \<and> is_symbol (SymV 9) \<and> ''extra'' \<notin> param_names sample_signature \<and>
        ''extra'' \<notin> fst ` set [(''ctx_group'', ''dev1'')]"
    by (simp add: param_names_def sample_signature_def)
  with a2 have e: "(''extra'', SymV 9) \<in> set (req_sym_kwargs r2) \<and> ''extra'' \<notin> set (req_keys r2)"
    by blast
  have "map_of [(''data'', SymV 1), (''extra'', SymV 9), (''axis'', IntV 0)] ''data'' =
          Some (SymV 1) \<and> is_symbol (SymV 1) \<and> ''data'' \<in> set (ndarg_names sample_signature) \<and>
        ''data'' \<notin> {''k'', ''v''}"
    by (simp add: sample_signature_def)
  with a2 have "(''data'', SymV 1) \<in> set (req_sym_kwargs r2)"
    by blast
  with e r2 h2 have k: "\<exists>r. created (snd (keyword_function np_dtype_sample 7 ''Cast''
                       sample_signature []
                       [(''data'', SymV 1), (''extra'', SymV 9), (''axis'', IntV 0)]
                       scoped_world)) = [r] \<and>
        (''extra'', SymV 9) \<in> set (req_sym_kwargs r) \<and> ''extra'' \<notin> set (req_keys r) \<and>
        (''data'', SymV 1) \<in> set (req_sym_kwargs r)"
    by (simp add: scoped_world_def)
  from h v h2 k show ?thesis by blast
qed

text \<open>
  C1 as stated fails in the keyword form: a node reference given for the declared plain
  scalar parameter \<^verbatim>\<open>axis\<close> is appended to \<^verbatim>\<open>vals\<close> and is not among the
  keyword nodes.
\<close>

theorem node_keywords_routed_counterexample:
  "classify sample_decl = Inr sample_signature \<and>
   keyword_function np_dtype_sample 7 ''Cast'' sample_signature []
     [(''data'', SymV 1), (''axis'', SymV 5)] empty_world =
     (Inr (SymV 0),
      \<lparr>attr_scope = [], name_counter = [(''cast'', 1)],
       created =
         [\<lparr>req_handle = 7, req_sym_args = None, req_sym_kwargs = [(''data'', SymV 1)],
           req_keys = [''axis''], req_vals = [SymV 5],
           req_name = StrV ''cast0''\<rparr>]\<rparr>) \<and>
   is_symbol (SymV 5)"
  by (simp add: classify_sample) (simp add: run_defs)

end
